theory Spec2Isabelle
  imports Complex_Main "HOL-Library.AList"
begin

section \<open>Data model of \<open>frigate/object_processing.py\<close>\<close>

text \<open>
  Cameras, zones and labels are Python strings. Scores, areas and timestamps are Python
  numbers; they are modelled as reals, so the comparisons of the source are the exact
  order comparisons, and the one subtraction (\<open>now - frame_time\<close>) is exact.
  A key of the plasma frame store is the string \<open>f"{camera}{frame_time}"\<close>; it is kept
  as the pair it is formatted from.
\<close>

type_synonym camera = string
type_synonym zone = string
type_synonym label = string
type_synonym point = "int \<times> int"
type_synonym contour = "point list"
type_synonym rect = "int \<times> int \<times> int \<times> int"
type_synonym colour = "nat \<times> nat \<times> nat"
type_synonym plasma_key = "camera \<times> real"
type_synonym bytes = "nat list"

datatype py_error = KeyError | TypeError | AttributeError

datatype status = ON | OFF

text \<open>
  Values of the zone filter configuration are dynamically typed in the source: a value is
  a number or a dictionary (the other YAML kinds are left out).
\<close>

datatype pyval = PNum real | PDict "(string \<times> pyval) list"

text \<open>A tracked object, as the tracker hands it in: a dictionary with these keys.\<close>

record tracked_object =
  label :: label
  score :: real
  area :: real
  centroid :: point
  box :: rect
  region :: rect
  frame_time :: real
  history :: "unit list"

text \<open>
  A frame is an image buffer together with what has been drawn on it. The pixel content
  is opaque (a number names it); the drawing calls of the source are recorded in order.
  The colour of a zone outline is left out.
\<close>

datatype overlay =
    Box_with_label rect label real real nat colour
  | Rectangle rect
  | Timestamp real
  | Contours contour nat

datatype frame = Frame (pixels: nat) (drawn: "overlay list")

text \<open>\<open>np.zeros((720,1280,3), np.uint8)\<close>, the current frame of a camera before any other.\<close>

definition zeros :: frame where
  "zeros = Frame 0 []"

text \<open>
  A best-sighting record is the tracked object with the key \<open>'frame'\<close> added
  (\<open>obj['frame'] = np.copy(...)\<close>, then \<open>best_objects[label] = obj\<close>).
\<close>

record best_object = tracked_object +
  frame :: frame

definition with_frame :: "tracked_object \<Rightarrow> frame \<Rightarrow> best_object" where
  "with_frame obj f = tracked_object.extend obj (best_object.fields f)"

text \<open>What the processor does to the outside world: MQTT publishes and frame store deletes.\<close>

datatype payload = Text string | Jpeg bytes

datatype effect = Publish string payload bool | PlasmaDelete plasma_key

subsection \<open>Configuration and external collaborators\<close>

text \<open>
  \<open>zone_config[name][camera]\<close> has the key \<open>'coordinates'\<close> and, optionally,
  \<open>'filters'\<close>. The two accepted spellings of the coordinates (a list of \<open>"x,y"\<close>
  strings, one comma separated string) are both held as the point list they denote;
  \<open>None\<close> is a value of another type, for which \<open>__init__\<close> prints a message
  and stores no contour.
\<close>

record camera_zone_config =
  coordinates :: "contour option"
  filters :: "pyval option"

record snapshots_config =
  show_timestamp :: bool
  draw_zones :: bool

text \<open>
  The constructor's arguments, the module level \<open>COLOR_MAP\<close>, and the routines of
  OpenCV that the loop calls: \<open>cv2.pointPolygonTest(contour, point, False)\<close>, and
  \<open>cv2.imencode('.jpg', cv2.cvtColor(frame, cv2.COLOR_RGB2BGR))\<close>, which is \<open>None\<close>
  when the returned flag \<open>ret\<close> is false.
\<close>

record config =
  camera_config :: "(camera \<times> snapshots_config) list"
  zone_config :: "(zone \<times> (camera \<times> camera_zone_config) list) list"
  topic_prefix :: string
  COLOR_MAP :: "(label \<times> colour) list"
  pointPolygonTest :: "contour \<Rightarrow> point \<Rightarrow> int"
  imencode :: "frame \<Rightarrow> bytes option"

subsection \<open>State of the processor\<close>

text \<open>
  \<open>self.camera_data\<close> is a \<open>defaultdict\<close> that is never iterated: a map from the
  camera to its entry, an absent camera standing for the default entry, which a read
  creates. \<open>self.zone_data\<close> and the status dictionaries are iterated, so they are
  association lists in insertion order (\<open>AList.update\<close> overwrites in place or appends,
  as a Python \<open>dict\<close> does).

  \<open>camera_data[camera]['object_status']\<close> is declared as a dictionary of dictionaries,
  but only ever holds \<open>'ON'\<close> or \<open>'OFF'\<close> at a label: a read of an absent label yields
  an empty dictionary, which differs from both strings, and is overwritten at once.
\<close>

record camera_state =
  best_objects :: "label \<rightharpoonup> best_object"
  object_status :: "(label \<times> status) list"
  tracked_objects :: "(string \<times> tracked_object) list"
  current_frame :: frame
  current_frame_time :: real
  object_id :: "plasma_key option"

record zone_state =
  zone_object_status :: "(camera \<times> (label \<times> status) list) list"
  contours :: "(camera \<times> contour) list"

record processor =
  camera_data :: "camera \<rightharpoonup> camera_state"
  zone_data :: "(zone \<times> zone_state) list"

definition default_camera_state :: camera_state where
  "default_camera_state =
     \<lparr>best_objects = Map.empty, object_status = [], tracked_objects = [],
      current_frame = zeros, current_frame_time = 0, object_id = None\<rparr>"

definition default_zone_state :: zone_state where
  "default_zone_state = \<lparr>zone_object_status = [], contours = []\<rparr>"

text \<open>\<open>self.camera_data[camera]\<close>: the entry, and the dictionary after the read.\<close>

definition cam_entry :: "(camera \<rightharpoonup> camera_state) \<Rightarrow> camera \<Rightarrow> camera_state" where
  "cam_entry cd cam = (case cd cam of None \<Rightarrow> default_camera_state | Some cs \<Rightarrow> cs)"

definition cam_touch :: "(camera \<rightharpoonup> camera_state) \<Rightarrow> camera \<Rightarrow> (camera \<rightharpoonup> camera_state)" where
  "cam_touch cd cam = cd(cam \<mapsto> cam_entry cd cam)"

text \<open>\<open>self.zone_data[zone]\<close>, likewise.\<close>

definition zone_entry :: "(zone \<times> zone_state) list \<Rightarrow> zone \<Rightarrow> zone_state" where
  "zone_entry zd z = (case map_of zd z of None \<Rightarrow> default_zone_state | Some zs \<Rightarrow> zs)"

text \<open>One item of \<open>tracked_objects_queue\<close>, with what the environment shows while the
  item is handled: the content of the plasma store, and the wall clock
  (\<open>datetime.datetime.now().timestamp()\<close>) at the \<open>n\<close>-th tracked object of the
  best-sighting loop.\<close>

record queue_item =
  q_camera :: camera
  q_frame_time :: real
  q_tracked_objects :: "(string \<times> tracked_object) list"
  plasma :: "plasma_key \<Rightarrow> frame option"
  clock :: "nat \<Rightarrow> real"

subsection \<open>Exceptions\<close>

definition ebind :: "'e + 'a \<Rightarrow> ('a \<Rightarrow> 'e + 'b) \<Rightarrow> 'e + 'b" where
  "ebind m f = (case m of Inl e \<Rightarrow> Inl e | Inr a \<Rightarrow> f a)"

definition py_get :: "pyval \<Rightarrow> string \<Rightarrow> pyval \<Rightarrow> py_error + pyval" where
  "py_get d k dflt =
     (case d of
        PDict kvs \<Rightarrow> Inr (case map_of kvs k of Some v \<Rightarrow> v | None \<Rightarrow> dflt)
      | PNum _ \<Rightarrow> Inl AttributeError)"

definition py_in :: "string \<Rightarrow> pyval \<Rightarrow> py_error + bool" where
  "py_in k d =
     (case d of
        PDict kvs \<Rightarrow> Inr (map_of kvs k \<noteq> None)
      | PNum _ \<Rightarrow> Inl TypeError)"

definition py_index :: "pyval \<Rightarrow> string \<Rightarrow> py_error + pyval" where
  "py_index d k =
     (case d of
        PDict kvs \<Rightarrow> (case map_of kvs k of Some v \<Rightarrow> Inr v | None \<Rightarrow> Inl KeyError)
      | PNum _ \<Rightarrow> Inl TypeError)"

text \<open>\<open>v > x\<close> and \<open>v < x\<close> for a configured value \<open>v\<close> and a number \<open>x\<close>.\<close>

definition py_gt :: "pyval \<Rightarrow> real \<Rightarrow> py_error + bool" where
  "py_gt v x = (case v of PNum a \<Rightarrow> Inr (a > x) | PDict _ \<Rightarrow> Inl TypeError)"

definition py_lt :: "pyval \<Rightarrow> real \<Rightarrow> py_error + bool" where
  "py_lt v x = (case v of PNum a \<Rightarrow> Inr (a < x) | PDict _ \<Rightarrow> Inl TypeError)"

section \<open>\<open>zone_filtered\<close>\<close>

definition zone_filtered :: "tracked_object \<Rightarrow> pyval \<Rightarrow> py_error + bool" where
  "zone_filtered obj object_config =
     ebind (py_get object_config ''filters'' (PDict [])) (\<lambda>object_filters.
     ebind (py_in (label obj) object_filters) (\<lambda>present.
       if present then
         ebind (py_index object_filters (label obj)) (\<lambda>obj_settings.
         ebind (py_get obj_settings ''min_area'' (PNum (- 1))) (\<lambda>min_area.
         ebind (py_gt min_area (area obj)) (\<lambda>too_small.
           if too_small then Inr True
           else
             ebind (py_get obj_settings ''max_area'' (PNum 24000000)) (\<lambda>max_area.
             ebind (py_lt max_area (area obj)) (\<lambda>too_big.
               if too_big then Inr True
               else
                 ebind (py_get obj_settings ''threshold'' (PNum 0)) (\<lambda>threshold.
                 ebind (py_gt threshold (score obj)) (\<lambda>too_low.
                   if too_low then Inr True else Inr False)))))))
       else Inr False))"

section \<open>\<open>TrackedObjectProcessor.__init__\<close>: the zone contours\<close>

fun init_cameras :: "zone \<Rightarrow> (camera \<times> camera_zone_config) list \<Rightarrow>
    (zone \<times> zone_state) list \<Rightarrow> (zone \<times> zone_state) list" where
  "init_cameras name [] zd = zd"
| "init_cameras name ((cam, czc) # rest) zd =
     (case coordinates czc of
        Some pts \<Rightarrow>
          init_cameras name rest
            (AList.update name
               ((zone_entry zd name)\<lparr>contours := AList.update cam pts (contours (zone_entry zd name))\<rparr>) zd)
      | None \<Rightarrow> init_cameras name rest zd)"

fun init_zones :: "(zone \<times> (camera \<times> camera_zone_config) list) list \<Rightarrow>
    (zone \<times> zone_state) list \<Rightarrow> (zone \<times> zone_state) list" where
  "init_zones [] zd = zd"
| "init_zones ((name, cfg) # rest) zd = init_zones rest (init_cameras name cfg zd)"

definition init :: "config \<Rightarrow> processor" where
  "init cfg = \<lparr>camera_data = Map.empty, zone_data = init_zones (zone_config cfg) []\<rparr>"

section \<open>The accessors\<close>

text \<open>Both read \<open>self.camera_data[camera]\<close>, which creates the camera's entry; the
  result is the returned value and the dictionary afterwards.\<close>

definition get_best :: "(camera \<rightharpoonup> camera_state) \<Rightarrow> camera \<Rightarrow> label \<Rightarrow>
    frame option \<times> (camera \<rightharpoonup> camera_state)" where
  "get_best cd cam l =
     (case best_objects (cam_entry cd cam) l of
        Some b \<Rightarrow> (Some (frame b), cam_touch cd cam)
      | None \<Rightarrow> (None, cam_touch cd cam))"

definition get_current_frame :: "(camera \<rightharpoonup> camera_state) \<Rightarrow> camera \<Rightarrow>
    frame \<times> (camera \<rightharpoonup> camera_state)" where
  "get_current_frame cd cam = (current_frame (cam_entry cd cam), cam_touch cd cam)"

section \<open>\<open>TrackedObjectProcessor.run\<close>: one turn of the loop\<close>

subsection \<open>Objects in each zone (lines 108 to 116)\<close>

text \<open>
  \<open>current_objects_in_zones\<close> is a \<open>defaultdict\<close> of lists that is only read and
  appended to by key: a function from the zone to its list, \<open>[]\<close> where nothing was
  appended. The innermost loop is \<open>for camera, contour in zone['contours'].items()\<close>:
  its target \<open>camera\<close> is the local variable that line 99 bound to the camera of the
  queue item, so the variable is threaded through the three loops and returned.
\<close>

definition box3 :: "rect \<Rightarrow> int" where
  "box3 b = (case b of (x_min, y_min, x_max, y_max) \<Rightarrow> y_max)"

definition bottom_center :: "tracked_object \<Rightarrow> point" where
  "bottom_center obj = (fst (centroid obj), box3 (box obj))"

text \<open>\<open>self.zone_config[name][camera].get('filters', {})\<close>\<close>

definition zone_filters :: "config \<Rightarrow> zone \<Rightarrow> camera \<Rightarrow> py_error + pyval" where
  "zone_filters cfg name cam =
     (case map_of (zone_config cfg) name of
        None \<Rightarrow> Inl KeyError
      | Some per_camera \<Rightarrow>
          (case map_of per_camera cam of
             None \<Rightarrow> Inl KeyError
           | Some czc \<Rightarrow> Inr (case filters czc of Some f \<Rightarrow> f | None \<Rightarrow> PDict [])))"

fun contours_loop :: "config \<Rightarrow> tracked_object \<Rightarrow> zone \<Rightarrow> (camera \<times> contour) list \<Rightarrow>
    camera \<times> (zone \<Rightarrow> label list) \<Rightarrow> py_error + (camera \<times> (zone \<Rightarrow> label list))" where
  "contours_loop cfg obj name [] acc = Inr acc"
| "contours_loop cfg obj name ((cam, contour) # rest) (camera, current) =
     (if pointPolygonTest cfg contour (bottom_center obj) \<ge> 0 then
        ebind (zone_filters cfg name cam) (\<lambda>object_config.
        ebind (zone_filtered obj object_config) (\<lambda>filtered.
          contours_loop cfg obj name rest
            (cam, if \<not> filtered then current(name := current name @ [label obj]) else current)))
      else contours_loop cfg obj name rest (cam, current))"

fun zones_loop :: "config \<Rightarrow> tracked_object \<Rightarrow> (zone \<times> zone_state) list \<Rightarrow>
    camera \<times> (zone \<Rightarrow> label list) \<Rightarrow> py_error + (camera \<times> (zone \<Rightarrow> label list))" where
  "zones_loop cfg obj [] acc = Inr acc"
| "zones_loop cfg obj ((name, zs) # rest) acc =
     ebind (contours_loop cfg obj name (contours zs) acc) (zones_loop cfg obj rest)"

fun objects_loop :: "config \<Rightarrow> (zone \<times> zone_state) list \<Rightarrow> tracked_object list \<Rightarrow>
    camera \<times> (zone \<Rightarrow> label list) \<Rightarrow> py_error + (camera \<times> (zone \<Rightarrow> label list))" where
  "objects_loop cfg zd [] acc = Inr acc"
| "objects_loop cfg zd (obj # rest) acc =
     ebind (zones_loop cfg obj zd acc) (objects_loop cfg zd rest)"

text \<open>The block: the camera variable and the zone membership after it.\<close>

definition objects_in_zones :: "config \<Rightarrow> (zone \<times> zone_state) list \<Rightarrow> camera \<Rightarrow>
    tracked_object list \<Rightarrow> py_error + (camera \<times> (zone \<Rightarrow> label list))" where
  "objects_in_zones cfg zd camera objs = objects_loop cfg zd objs (camera, \<lambda>name. [])"

subsection \<open>Drawing on the frame and setting the current frame (lines 121 to 158)\<close>

definition draw :: "overlay \<Rightarrow> frame \<Rightarrow> frame" where
  "draw ov f = Frame (pixels f) (drawn f @ [ov])"

fun draw_objects :: "config \<Rightarrow> real \<Rightarrow> tracked_object list \<Rightarrow> frame \<Rightarrow> py_error + frame" where
  "draw_objects cfg ftime [] f = Inr f"
| "draw_objects cfg ftime (obj # rest) f =
     (case map_of (COLOR_MAP cfg) (label obj) of
        None \<Rightarrow> Inl KeyError
      | Some color \<Rightarrow>
          draw_objects cfg ftime rest
            (draw (Rectangle (region obj))
              (draw (if frame_time obj \<noteq> ftime
                     then Box_with_label (box obj) (label obj) (score obj) (area obj) 1 (255, 0, 0)
                     else Box_with_label (box obj) (label obj) (score obj) (area obj) 2 color) f)))"

fun draw_zone_contours :: "camera \<Rightarrow> (zone \<Rightarrow> label list) \<Rightarrow> (zone \<times> zone_state) list \<Rightarrow>
    frame \<Rightarrow> frame" where
  "draw_zone_contours camera current [] f = f"
| "draw_zone_contours camera current ((name, zs) # rest) f =
     draw_zone_contours camera current rest
       (case map_of (contours zs) camera of
          Some contour \<Rightarrow> draw (Contours contour (if length (current name) = 0 then 2 else 8)) f
        | None \<Rightarrow> f)"

definition annotate :: "config \<Rightarrow> snapshots_config \<Rightarrow> (zone \<times> zone_state) list \<Rightarrow> camera \<Rightarrow>
    real \<Rightarrow> tracked_object list \<Rightarrow> (zone \<Rightarrow> label list) \<Rightarrow> frame \<Rightarrow> py_error + frame" where
  "annotate cfg camera_cfg zd camera ftime objs current f =
     ebind (draw_objects cfg ftime objs f) (\<lambda>f1.
       let f2 = (if show_timestamp camera_cfg then draw (Timestamp ftime) f1 else f1);
           f3 = (if draw_zones camera_cfg then draw_zone_contours camera current zd f2 else f2)
       in Inr f3)"

text \<open>
  The whole block. \<open>fetched\<close> is what \<open>self.plasma_client.get(f"{camera}{frame_time}")\<close>
  returned, \<open>None\<close> for \<open>plasma.ObjectNotAvailable\<close>.
\<close>

definition set_current_frame :: "config \<Rightarrow> snapshots_config \<Rightarrow> (zone \<times> zone_state) list \<Rightarrow>
    camera \<Rightarrow> real \<Rightarrow> tracked_object list \<Rightarrow> (zone \<Rightarrow> label list) \<Rightarrow> frame option \<Rightarrow>
    (camera \<rightharpoonup> camera_state) \<Rightarrow> py_error + ((camera \<rightharpoonup> camera_state) \<times> effect list)" where
  "set_current_frame cfg camera_cfg zd camera ftime objs current fetched cd =
     (case fetched of
        None \<Rightarrow> Inr (cd, [])
      | Some raw \<Rightarrow>
          ebind (annotate cfg camera_cfg zd camera ftime objs current raw) (\<lambda>current_frame'.
            let cd1 = cd(camera \<mapsto> (cam_entry cd camera)\<lparr>current_frame := current_frame'\<rparr>);
                deleted = (case object_id (cam_entry cd1 camera) of
                             Some previous \<Rightarrow> [PlasmaDelete previous]
                           | None \<Rightarrow> []);
                cd2 = cd1(camera \<mapsto> (cam_entry cd1 camera)\<lparr>object_id := Some (camera, ftime)\<rparr>)
            in Inr (cd2, deleted)))"

subsection \<open>The highest scoring recent object of each label (lines 163 to 176)\<close>

text \<open>
  \<open>best_objects\<close> is the dictionary of the camera named by the queue item (bound at line
  102, here \<open>camera0\<close>); the frame that is copied is the current frame of the camera the
  variable \<open>camera\<close> names at that point. \<open>now\<close> is the clock reading of line 168.
\<close>

definition best_object_step :: "camera \<Rightarrow> camera \<Rightarrow> real \<Rightarrow> real \<Rightarrow> tracked_object \<Rightarrow>
    (camera \<rightharpoonup> camera_state) \<Rightarrow> (camera \<rightharpoonup> camera_state)" where
  "best_object_step camera0 camera ftime now obj cd =
     (if frame_time obj \<noteq> ftime then cd
      else
        (case best_objects (cam_entry cd camera0) (label obj) of
           Some best \<Rightarrow>
             if score obj > score best \<or> now - frame_time best > 60 then
               (let cd1 = cam_touch cd camera;
                    stored = with_frame obj (current_frame (cam_entry cd1 camera))
                in cd1(camera0 \<mapsto> (cam_entry cd1 camera0)
                     \<lparr>best_objects := (best_objects (cam_entry cd1 camera0))(label obj \<mapsto> stored)\<rparr>))
             else cd
         | None \<Rightarrow>
             (let cd1 = cam_touch cd camera;
                  stored = with_frame obj (current_frame (cam_entry cd1 camera))
              in cd1(camera0 \<mapsto> (cam_entry cd1 camera0)
                   \<lparr>best_objects := (best_objects (cam_entry cd1 camera0))(label obj \<mapsto> stored)\<rparr>))))"

fun best_objects_loop :: "camera \<Rightarrow> camera \<Rightarrow> real \<Rightarrow> (nat \<Rightarrow> real) \<Rightarrow> nat \<Rightarrow>
    tracked_object list \<Rightarrow> (camera \<rightharpoonup> camera_state) \<Rightarrow> (camera \<rightharpoonup> camera_state)" where
  "best_objects_loop camera0 camera ftime clk n [] cd = cd"
| "best_objects_loop camera0 camera ftime clk n (obj # rest) cd =
     best_objects_loop camera0 camera ftime clk (Suc n) rest
       (best_object_step camera0 camera ftime (clk n) obj cd)"

subsection \<open>Zone occupancy over MQTT (lines 182 to 197)\<close>

definition zone_topic :: "string \<Rightarrow> zone \<Rightarrow> label \<Rightarrow> string" where
  "zone_topic prefix z l = prefix @ ''/'' @ z @ ''/'' @ l"

definition status_text :: "status \<Rightarrow> payload" where
  "status_text s = (case s of ON \<Rightarrow> Text ''ON'' | OFF \<Rightarrow> Text ''OFF'')"

text \<open>
  The status dictionaries of a zone are \<open>defaultdict\<close>s with default \<open>'OFF'\<close>: the read
  \<open>camera[label]\<close> of an absent label stores \<open>'OFF'\<close> there. \<open>any_on\<close> is
  \<open>any([camera[label] == 'ON' for camera in ...['object_status'].values()])\<close>: the value,
  and the dictionaries after the reads.
\<close>

definition read_label :: "(label \<times> status) list \<Rightarrow> label \<Rightarrow> (label \<times> status) list" where
  "read_label d l = (case map_of d l of None \<Rightarrow> d @ [(l, OFF)] | Some s \<Rightarrow> d)"

definition any_on :: "(camera \<times> (label \<times> status) list) list \<Rightarrow> label \<Rightarrow>
    bool \<times> (camera \<times> (label \<times> status) list) list" where
  "any_on os l =
     (list_ex (\<lambda>cd. map_of (snd cd) l = Some ON) os,
      map (\<lambda>cd. (fst cd, read_label (snd cd) l)) os)"

text \<open>\<open>object_status[camera]\<close>, a read of the outer \<open>defaultdict\<close>.\<close>

definition status_of_camera :: "(camera \<times> (label \<times> status) list) list \<Rightarrow> camera \<Rightarrow>
    (label \<times> status) list" where
  "status_of_camera os camera = (case map_of os camera of None \<Rightarrow> [] | Some d \<Rightarrow> d)"

text \<open>The body of \<open>for label in labels_for_zone\<close>, on the status dictionaries of the zone.\<close>

definition report_label :: "string \<Rightarrow> zone \<Rightarrow> camera \<Rightarrow> label list \<Rightarrow> label \<Rightarrow>
    (camera \<times> (label \<times> status) list) list \<Rightarrow>
    (camera \<times> (label \<times> status) list) list \<times> effect list" where
  "report_label prefix z camera current l os =
     (let (previous_state, os1) = any_on os l;
          os2 = AList.update camera
                  (AList.update l (if l \<in> set current then ON else OFF) (status_of_camera os1 camera))
                  os1;
          (new_state, os3) = any_on os2 l
      in (os3,
          if previous_state = False \<and> new_state = True
            then [Publish (zone_topic prefix z l) (Text ''ON'') False]
          else if previous_state = True \<and> new_state = False
            then [Publish (zone_topic prefix z l) (Text ''OFF'') False]
          else []))"

fun labels_loop :: "string \<Rightarrow> zone \<Rightarrow> camera \<Rightarrow> label list \<Rightarrow> label list \<Rightarrow>
    (camera \<times> (label \<times> status) list) list \<Rightarrow>
    (camera \<times> (label \<times> status) list) list \<times> effect list" where
  "labels_loop prefix z camera current [] os = (os, [])"
| "labels_loop prefix z camera current (l # rest) os =
     (let (os1, msgs1) = report_label prefix z camera current l os;
          (os2, msgs2) = labels_loop prefix z camera current rest os1
      in (os2, msgs1 @ msgs2))"

text \<open>
  \<open>labels_for_zone\<close> is a Python \<open>set\<close>; it is iterated in an order of Python's choice.
  The model takes the order of \<open>remdups\<close> on the concatenation the set is built from.
\<close>

definition labels_for_zone :: "label list \<Rightarrow> (label \<times> status) list \<Rightarrow> label list" where
  "labels_for_zone current d = remdups (current @ map fst d)"

text \<open>The body of \<open>for zone in relevant_zones\<close>. Reading \<open>self.zone_data[zone]\<close> and
  \<open>['object_status'][camera]\<close> creates the entries that are absent.\<close>

definition report_zone :: "string \<Rightarrow> camera \<Rightarrow> (zone \<Rightarrow> label list) \<Rightarrow> zone \<Rightarrow>
    (zone \<times> zone_state) list \<Rightarrow> (zone \<times> zone_state) list \<times> effect list" where
  "report_zone prefix camera current z zd =
     (let zs = zone_entry zd z;
          os0 = AList.update camera (status_of_camera (zone_object_status zs) camera)
                  (zone_object_status zs);
          labels = labels_for_zone (current z) (status_of_camera os0 camera);
          (os1, msgs) = labels_loop prefix z camera (current z) labels os0
      in (AList.update z (zs\<lparr>zone_object_status := os1\<rparr>) zd, msgs))"

fun report_zones :: "string \<Rightarrow> camera \<Rightarrow> (zone \<Rightarrow> label list) \<Rightarrow> zone list \<Rightarrow>
    (zone \<times> zone_state) list \<Rightarrow> (zone \<times> zone_state) list \<times> effect list" where
  "report_zones prefix camera current [] zd = (zd, [])"
| "report_zones prefix camera current (z # rest) zd =
     (let (zd1, msgs1) = report_zone prefix camera current z zd;
          (zd2, msgs2) = report_zones prefix camera current rest zd1
      in (zd2, msgs1 @ msgs2))"

definition relevant_zones :: "config \<Rightarrow> camera \<Rightarrow> zone list" where
  "relevant_zones cfg camera =
     map fst (filter (\<lambda>zc. map_of (snd zc) camera \<noteq> None) (zone_config cfg))"

subsection \<open>Presence of a label in the whole frame (lines 199 to 228)\<close>

definition camera_topic :: "string \<Rightarrow> camera \<Rightarrow> label \<Rightarrow> string" where
  "camera_topic prefix camera l = prefix @ ''/'' @ camera @ ''/'' @ l"

definition snapshot_topic :: "string \<Rightarrow> camera \<Rightarrow> label \<Rightarrow> string" where
  "snapshot_topic prefix camera l = prefix @ ''/'' @ camera @ ''/'' @ l @ ''/snapshot''"

text \<open>\<open>obj_counter\<close>, a \<open>Counter\<close>: the labels in the order they were first counted.\<close>

fun count_objects :: "tracked_object list \<Rightarrow> (label \<times> nat) list \<Rightarrow> (label \<times> nat) list" where
  "count_objects [] obj_counter = obj_counter"
| "count_objects (obj # rest) obj_counter =
     count_objects rest
       (if length (history obj) > 1
        then AList.update (label obj)
               (case map_of obj_counter (label obj) of None \<Rightarrow> 1 | Some c \<Rightarrow> c + 1) obj_counter
        else obj_counter)"

text \<open>Lines 212 to 216 and 224 to 228: the best frame of the label, encoded and published
  when the encoding succeeds; \<open>best_objects[obj_name]\<close> raises where there is no record.\<close>

definition publish_snapshot :: "config \<Rightarrow> camera \<Rightarrow> (label \<rightharpoonup> best_object) \<Rightarrow> label \<Rightarrow>
    py_error + effect list" where
  "publish_snapshot cfg camera best obj_name =
     (case best obj_name of
        None \<Rightarrow> Inl KeyError
      | Some b \<Rightarrow>
          (case imencode cfg (frame b) of
             Some jpg_bytes \<Rightarrow>
               Inr [Publish (snapshot_topic (topic_prefix cfg) camera obj_name) (Jpeg jpg_bytes) True]
           | None \<Rightarrow> Inr []))"

text \<open>\<open>for obj_name, count in obj_counter.items()\<close>\<close>

fun report_detected :: "config \<Rightarrow> camera \<Rightarrow> (label \<rightharpoonup> best_object) \<Rightarrow> (label \<times> nat) list \<Rightarrow>
    (label \<times> status) list \<Rightarrow> py_error + ((label \<times> status) list \<times> effect list)" where
  "report_detected cfg camera best [] st = Inr (st, [])"
| "report_detected cfg camera best ((obj_name, count) # rest) st =
     (let new_status = (if count > 0 then ON else OFF) in
      if map_of st obj_name \<noteq> Some new_status then
        ebind (publish_snapshot cfg camera best obj_name) (\<lambda>snap.
        ebind (report_detected cfg camera best rest (AList.update obj_name new_status st))
          (\<lambda>(st', msgs).
             Inr (st', Publish (camera_topic (topic_prefix cfg) camera obj_name)
                         (status_text new_status) False # snap @ msgs)))
      else report_detected cfg camera best rest st)"

text \<open>\<open>for obj_name in expired_objects\<close>\<close>

fun expire_objects :: "config \<Rightarrow> camera \<Rightarrow> (label \<rightharpoonup> best_object) \<Rightarrow> label list \<Rightarrow>
    (label \<times> status) list \<Rightarrow> py_error + ((label \<times> status) list \<times> effect list)" where
  "expire_objects cfg camera best [] st = Inr (st, [])"
| "expire_objects cfg camera best (obj_name # rest) st =
     ebind (publish_snapshot cfg camera best obj_name) (\<lambda>snap.
     ebind (expire_objects cfg camera best rest (AList.update obj_name OFF st))
       (\<lambda>(st', msgs).
          Inr (st', Publish (camera_topic (topic_prefix cfg) camera obj_name) (Text ''OFF'') False
                      # snap @ msgs)))"

definition expired_objects :: "(label \<times> status) list \<Rightarrow> (label \<times> nat) list \<Rightarrow> label list" where
  "expired_objects st obj_counter =
     map fst (filter (\<lambda>ls. snd ls = ON \<and> map_of obj_counter (fst ls) = None) st)"

text \<open>The block: \<open>camera\<close> is the variable at that point, \<open>best\<close> and \<open>st\<close> are
  \<open>best_objects\<close> and \<open>current_object_status\<close>, bound at lines 102 and 103.\<close>

definition report_objects :: "config \<Rightarrow> camera \<Rightarrow> (label \<rightharpoonup> best_object) \<Rightarrow>
    tracked_object list \<Rightarrow> (label \<times> status) list \<Rightarrow>
    py_error + ((label \<times> status) list \<times> effect list)" where
  "report_objects cfg camera best objs st =
     (let obj_counter = count_objects objs [] in
      ebind (report_detected cfg camera best obj_counter st) (\<lambda>(st1, msgs1).
      ebind (expire_objects cfg camera best (expired_objects st1 obj_counter) st1) (\<lambda>(st2, msgs2).
        Inr (st2, msgs1 @ msgs2))))"

subsection \<open>The body of \<open>while True\<close>, and the loop on the items of the queue\<close>

definition process :: "config \<Rightarrow> processor \<Rightarrow> queue_item \<Rightarrow> py_error + (processor \<times> effect list)" where
  "process cfg p item =
     (let camera0 = q_camera item; ftime = q_frame_time item;
          objs = map snd (q_tracked_objects item)
      in
      case map_of (camera_config cfg) camera0 of
        None \<Rightarrow> Inl KeyError
      | Some camera_cfg \<Rightarrow>
          (let cd0 = (camera_data p)(camera0 \<mapsto> (cam_entry (camera_data p) camera0)
                       \<lparr>tracked_objects := q_tracked_objects item, current_frame_time := ftime\<rparr>)
           in
           ebind (objects_in_zones cfg (zone_data p) camera0 objs) (\<lambda>(camera, current).
           ebind (set_current_frame cfg camera_cfg (zone_data p) camera ftime objs current
                    (plasma item (camera, ftime)) cd0) (\<lambda>(cd1, deleted).
             let cd2 = best_objects_loop camera0 camera ftime (clock item) 0 objs cd1;
                 (zd1, zone_msgs) = report_zones (topic_prefix cfg) camera current
                                      (relevant_zones cfg camera) (zone_data p)
             in
             ebind (report_objects cfg camera (best_objects (cam_entry cd2 camera0)) objs
                      (object_status (cam_entry cd2 camera0))) (\<lambda>(st1, object_msgs).
               Inr (\<lparr>camera_data = cd2(camera0 \<mapsto> (cam_entry cd2 camera0)\<lparr>object_status := st1\<rparr>),
                     zone_data = zd1\<rparr>,
                    deleted @ zone_msgs @ object_msgs))))))"

fun run :: "config \<Rightarrow> processor \<Rightarrow> queue_item list \<Rightarrow> py_error + (processor \<times> effect list)" where
  "run cfg p [] = Inr (p, [])"
| "run cfg p (item # rest) =
     ebind (process cfg p item) (\<lambda>(p1, effects1).
     ebind (run cfg p1 rest) (\<lambda>(p2, effects2). Inr (p2, effects1 @ effects2)))"

section \<open>What the claims observe\<close>

text \<open>The best-sighting record of a camera and a label, if there is one.\<close>

definition best_record :: "(camera \<rightharpoonup> camera_state) \<Rightarrow> camera \<Rightarrow> label \<Rightarrow> best_object option" where
  "best_record cd cam l = (case cd cam of None \<Rightarrow> None | Some cs \<Rightarrow> best_objects cs l)"

text \<open>
  The occupancy of a label in the status dictionaries of a zone, the message that an edge
  of it calls for, and the labels that the zone block visits for a zone.
\<close>

definition occupied :: "(camera \<times> (label \<times> status) list) list \<Rightarrow> label \<Rightarrow> bool" where
  "occupied os l = list_ex (\<lambda>cd. map_of (snd cd) l = Some ON) os"

definition zone_occupied :: "(zone \<times> zone_state) list \<Rightarrow> zone \<Rightarrow> label \<Rightarrow> bool" where
  "zone_occupied zd z l = occupied (zone_object_status (zone_entry zd z)) l"

definition edge_msgs :: "string \<Rightarrow> zone \<Rightarrow> label \<Rightarrow> bool \<Rightarrow> bool \<Rightarrow> effect list" where
  "edge_msgs prefix z l before after =
     (if \<not> before \<and> after then [Publish (zone_topic prefix z l) (Text ''ON'') False]
      else if before \<and> \<not> after then [Publish (zone_topic prefix z l) (Text ''OFF'') False]
      else [])"

definition visited_labels :: "camera \<Rightarrow> (zone \<Rightarrow> label list) \<Rightarrow> (zone \<times> zone_state) list \<Rightarrow>
    zone \<Rightarrow> label list" where
  "visited_labels camera current zd z =
     labels_for_zone (current z) (status_of_camera (zone_object_status (zone_entry zd z)) camera)"

definition zone_edges :: "string \<Rightarrow> camera \<Rightarrow> (zone \<Rightarrow> label list) \<Rightarrow>
    (zone \<times> zone_state) list \<Rightarrow> (zone \<times> zone_state) list \<Rightarrow> zone \<Rightarrow> effect list" where
  "zone_edges prefix camera current zd zd' z =
     concat (map (\<lambda>l. edge_msgs prefix z l (zone_occupied zd z l) (zone_occupied zd' z l))
                 (visited_labels camera current zd z))"

text \<open>The labels that \<open>obj_counter\<close> holds, and the messages of a label at an edge.\<close>

definition counted :: "tracked_object list \<Rightarrow> label \<Rightarrow> bool" where
  "counted objs l = list_ex (\<lambda>obj. label obj = l \<and> length (history obj) > 1) objs"

definition snapshot_msgs :: "config \<Rightarrow> camera \<Rightarrow> (label \<rightharpoonup> best_object) \<Rightarrow> label \<Rightarrow> effect list" where
  "snapshot_msgs cfg camera best l =
     (case best l of
        None \<Rightarrow> []
      | Some b \<Rightarrow> (case imencode cfg (frame b) of
                     None \<Rightarrow> []
                   | Some jpg \<Rightarrow> [Publish (snapshot_topic (topic_prefix cfg) camera l) (Jpeg jpg) True]))"

definition on_msgs :: "config \<Rightarrow> camera \<Rightarrow> (label \<rightharpoonup> best_object) \<Rightarrow> (label \<rightharpoonup> status) \<Rightarrow>
    label \<Rightarrow> effect list" where
  "on_msgs cfg camera best st l =
     (if st l \<noteq> Some ON
      then Publish (camera_topic (topic_prefix cfg) camera l) (Text ''ON'') False
             # snapshot_msgs cfg camera best l
      else [])"

definition off_msgs :: "config \<Rightarrow> camera \<Rightarrow> (label \<rightharpoonup> best_object) \<Rightarrow> label \<Rightarrow> effect list" where
  "off_msgs cfg camera best l =
     Publish (camera_topic (topic_prefix cfg) camera l) (Text ''OFF'') False
       # snapshot_msgs cfg camera best l"

text \<open>The handle and the current frame of a camera, and the keys that a list of effects
  asks the frame store to delete.\<close>

definition held_handle :: "(camera \<rightharpoonup> camera_state) \<Rightarrow> camera \<Rightarrow> plasma_key option" where
  "held_handle cd c = object_id (cam_entry cd c)"

definition shown_frame :: "(camera \<rightharpoonup> camera_state) \<Rightarrow> camera \<Rightarrow> frame" where
  "shown_frame cd c = current_frame (cam_entry cd c)"

fun plasma_deletes :: "effect list \<Rightarrow> plasma_key list" where
  "plasma_deletes [] = []"
| "plasma_deletes (Publish t pl r # es) = plasma_deletes es"
| "plasma_deletes (PlasmaDelete k # es) = k # plasma_deletes es"


section \<open>Concrete configurations and inputs\<close>

text \<open>
  For the rectangles with sides parallel to the axes that the examples use, given by their
  four corners from the top left one, the sign of \<open>cv2.pointPolygonTest\<close>: not negative
  on the rectangle and its boundary, negative outside.
\<close>

definition rectangle_test :: "contour \<Rightarrow> point \<Rightarrow> int" where
  "rectangle_test contour pt =
     (case contour of
        [(x0, y0), (x1, y1), (x2, y2), (x3, y3)] \<Rightarrow>
          if x0 \<le> fst pt \<and> fst pt \<le> x2 \<and> y0 \<le> snd pt \<and> snd pt \<le> y2 then 1 else - 1
      | _ \<Rightarrow> - 1)"

text \<open>A person whose box is \<open>(0, 0, 10, 10)\<close>, so that its bottom centre is \<open>(5, 10)\<close>.\<close>

definition person :: "real \<Rightarrow> real \<Rightarrow> real \<Rightarrow> unit list \<Rightarrow> tracked_object" where
  "person s a t h =
     \<lparr>label = ''person'', score = s, area = a, centroid = (5, 5), box = (0, 0, 10, 10),
      region = (0, 0, 20, 20), frame_time = t, history = h\<rparr>"

text \<open>One camera and no zone.\<close>

definition plain_config :: config where
  "plain_config =
     \<lparr>camera_config = [(''back'', \<lparr>show_timestamp = False, draw_zones = False\<rparr>)],
      zone_config = [],
      topic_prefix = ''frigate'',
      COLOR_MAP = [(''person'', (10, 20, 30))],
      pointPolygonTest = rectangle_test,
      imencode = (\<lambda>f. Some [pixels f])\<rparr>"

text \<open>A processor that holds a best record for a person seen at time 10 with score 0.5.\<close>

definition seen_person :: processor where
  "seen_person =
     \<lparr>camera_data = [''back'' \<mapsto> default_camera_state
         \<lparr>best_objects := [''person'' \<mapsto> with_frame (person (1/2) 100 10 [()]) zeros]\<rparr>],
      zone_data = []\<rparr>"

text \<open>A snapshot of time 12 whose only object was last seen at time 11.\<close>

definition stale_item :: queue_item where
  "stale_item =
     \<lparr>q_camera = ''back'', q_frame_time = 12,
      q_tracked_objects = [(''id1'', person (9/10) 100 11 [()])],
      plasma = (\<lambda>k. None), clock = (\<lambda>n. 13)\<rparr>"

text \<open>
  A zone with a filter for persons, written as the configuration file has it:
  \<open>{'porch': {'back': {'coordinates': ..., 'filters': {'person': {'min_area': 5000,
  'max_area': 100000, 'threshold': 0.8}}}}}\<close>.
\<close>

definition porch_filter :: pyval where
  "porch_filter =
     PDict [(''person'', PDict [(''min_area'', PNum 5000), (''max_area'', PNum 100000),
                                (''threshold'', PNum (8/10))])]"

definition porch_config :: config where
  "porch_config =
     \<lparr>camera_config = [(''back'', \<lparr>show_timestamp = False, draw_zones = False\<rparr>)],
      zone_config =
        [(''porch'', [(''back'', \<lparr>coordinates = Some [(0, 0), (100, 0), (100, 100), (0, 100)],
                                   filters = Some porch_filter\<rparr>)])],
      topic_prefix = ''frigate'',
      COLOR_MAP = [(''person'', (10, 20, 30))],
      pointPolygonTest = rectangle_test,
      imencode = (\<lambda>f. Some [pixels f])\<rparr>"

text \<open>
  A zone on two cameras and a zone on one: the rectangle of camera \<open>front\<close> holds the
  point \<open>(5, 10)\<close>, the rectangle of camera \<open>back\<close> does not.
\<close>

definition yard_config :: config where
  "yard_config =
     \<lparr>camera_config = [(''front'', \<lparr>show_timestamp = False, draw_zones = False\<rparr>),
                       (''back'', \<lparr>show_timestamp = False, draw_zones = False\<rparr>)],
      zone_config =
        [(''yard'', [(''back'', \<lparr>coordinates = Some [(200, 200), (300, 200), (300, 300), (200, 300)],
                                  filters = None\<rparr>),
                     (''front'', \<lparr>coordinates = Some [(0, 0), (100, 0), (100, 100), (0, 100)],
                                   filters = None\<rparr>)]),
         (''drive'', [(''front'', \<lparr>coordinates = Some [(0, 0), (100, 0), (100, 100), (0, 100)],
                                    filters = None\<rparr>)])],
      topic_prefix = ''frigate'',
      COLOR_MAP = [(''person'', (10, 20, 30))],
      pointPolygonTest = rectangle_test,
      imencode = (\<lambda>f. Some [pixels f])\<rparr>"

text \<open>A configuration whose JPEG encoder always fails, and a best record for persons.\<close>

definition mute_config :: config where
  "mute_config =
     \<lparr>camera_config = [(''back'', \<lparr>show_timestamp = False, draw_zones = False\<rparr>)],
      zone_config = [],
      topic_prefix = ''frigate'',
      COLOR_MAP = [(''person'', (10, 20, 30))],
      pointPolygonTest = rectangle_test,
      imencode = (\<lambda>f. None)\<rparr>"

definition best_person :: "label \<rightharpoonup> best_object" where
  "best_person = [''person'' \<mapsto> with_frame (person (1/2) 100 10 [()]) zeros]"

text \<open>One zone on one camera, with timestamp and zone outlines drawn; a snapshot whose
  frame the store does not have, and one whose frame it has while an older handle is held.\<close>

definition drive_config :: config where
  "drive_config =
     \<lparr>camera_config = [(''back'', \<lparr>show_timestamp = True, draw_zones = True\<rparr>)],
      zone_config =
        [(''drive'', [(''back'', \<lparr>coordinates = Some [(0, 0), (100, 0), (100, 100), (0, 100)],
                                   filters = None\<rparr>)])],
      topic_prefix = ''frigate'',
      COLOR_MAP = [(''person'', (10, 20, 30))],
      pointPolygonTest = rectangle_test,
      imencode = (\<lambda>f. Some [pixels f])\<rparr>"

definition drive_zone :: zone_state where
  "drive_zone = \<lparr>zone_object_status = [],
                  contours = [(''back'', [(0, 0), (100, 0), (100, 100), (0, 100)])]\<rparr>"


definition held_processor :: processor where
  "held_processor =
     \<lparr>camera_data = [''back'' \<mapsto> default_camera_state\<lparr>object_id := Some (''back'', 10)\<rparr>],
      zone_data = [(''drive'', drive_zone)]\<rparr>"

definition framed_item :: queue_item where
  "framed_item =
     \<lparr>q_camera = ''back'', q_frame_time = 12,
      q_tracked_objects = [(''id1'', person (9/10) 100 12 [()])],
      plasma = (\<lambda>k. if k = (''back'', 12) then Some (Frame 7 []) else None),
      clock = (\<lambda>n. 13)\<rparr>"

definition framed_frame :: frame where
  "framed_frame =
     Frame 7 [Box_with_label (0, 0, 10, 10) ''person'' (9/10) 100 2 (10, 20, 30),
              Rectangle (0, 0, 20, 20), Timestamp 12,
              Contours [(0, 0), (100, 0), (100, 100), (0, 100)] 8]"


definition after_framed_item :: processor where
  "after_framed_item =
     \<lparr>camera_data = [''back'' \<mapsto> default_camera_state
              \<lparr>best_objects := [''person'' \<mapsto> with_frame (person (9/10) 100 12 [()]) framed_frame],
               tracked_objects := [(''id1'', person (9/10) 100 12 [()])],
               current_frame := framed_frame,
               current_frame_time := 12,
               object_id := Some (''back'', 12)\<rparr>],
      zone_data = [(''drive'', drive_zone\<lparr>zone_object_status := [(''back'', [(''person'', ON)])]\<rparr>)]\<rparr>"

text \<open>Both cameras of \<open>yard\<close> and the camera of \<open>drive\<close> report a person; then camera
  \<open>front\<close> reports none.\<close>

definition handoff_zones :: "(zone \<times> zone_state) list" where
  "handoff_zones =
     [(''yard'', \<lparr>zone_object_status = [(''front'', [(''person'', ON)]), (''back'', [(''person'', ON)])],
                  contours = [(''back'', [(200, 200), (300, 200), (300, 300), (200, 300)]),
                              (''front'', [(0, 0), (100, 0), (100, 100), (0, 100)])]\<rparr>),
      (''drive'', \<lparr>zone_object_status = [(''front'', [(''person'', ON)])],
                   contours = [(''front'', [(0, 0), (100, 0), (100, 100), (0, 100)])]\<rparr>)]"

definition after_handoff :: "(zone \<times> zone_state) list" where
  "after_handoff =
     [(''yard'', \<lparr>zone_object_status = [(''front'', [(''person'', OFF)]), (''back'', [(''person'', ON)])],
                  contours = [(''back'', [(200, 200), (300, 200), (300, 300), (200, 300)]),
                              (''front'', [(0, 0), (100, 0), (100, 100), (0, 100)])]\<rparr>),
      (''drive'', \<lparr>zone_object_status = [(''front'', [(''person'', OFF)])],
                   contours = [(''front'', [(0, 0), (100, 0), (100, 100), (0, 100)])]\<rparr>)]"

text \<open>
  The zones of \<open>yard_config\<close> as \<open>__init__\<close> builds them; camera \<open>front\<close> holds the
  handle of its frame of time 10; a snapshot of camera \<open>back\<close> at time 12, when the store
  has a frame of time 12 for \<open>front\<close> and none for \<open>back\<close>.
\<close>

definition yard_zones :: "(zone \<times> zone_state) list" where
  "yard_zones =
     [(''yard'', \<lparr>zone_object_status = [],
                  contours = [(''back'', [(200, 200), (300, 200), (300, 300), (200, 300)]),
                              (''front'', [(0, 0), (100, 0), (100, 100), (0, 100)])]\<rparr>),
      (''drive'', \<lparr>zone_object_status = [],
                   contours = [(''front'', [(0, 0), (100, 0), (100, 100), (0, 100)])]\<rparr>)]"

definition front_held :: processor where
  "front_held =
     \<lparr>camera_data = [''front'' \<mapsto> default_camera_state\<lparr>object_id := Some (''front'', 10)\<rparr>],
      zone_data = yard_zones\<rparr>"

definition back_item :: queue_item where
  "back_item =
     \<lparr>q_camera = ''back'', q_frame_time = 12,
      q_tracked_objects = [(''id1'', person (9/10) 100 12 [(), ()])],
      plasma = (\<lambda>k. if k = (''front'', 12) then Some (Frame 7 []) else None),
      clock = (\<lambda>n. 13)\<rparr>"

definition boxed_frame :: frame where
  "boxed_frame =
     Frame 7 [Box_with_label (0, 0, 10, 10) ''person'' (9/10) 100 2 (10, 20, 30),
              Rectangle (0, 0, 20, 20)]"

definition after_back_item :: processor where
  "after_back_item =
     \<lparr>camera_data =
        [''front'' \<mapsto> default_camera_state
           \<lparr>current_frame := boxed_frame, object_id := Some (''front'', 12)\<rparr>,
         ''back'' \<mapsto> default_camera_state
           \<lparr>best_objects := [''person'' \<mapsto> with_frame (person (9/10) 100 12 [(), ()]) boxed_frame],
            object_status := [(''person'', ON)],
            tracked_objects := [(''id1'', person (9/10) 100 12 [(), ()])],
            current_frame_time := 12\<rparr>],
      zone_data =
        [(''yard'', \<lparr>zone_object_status = [(''front'', [(''person'', ON)])],
                     contours = [(''back'', [(200, 200), (300, 200), (300, 300), (200, 300)]),
                                 (''front'', [(0, 0), (100, 0), (100, 100), (0, 100)])]\<rparr>),
         (''drive'', \<lparr>zone_object_status = [(''front'', [(''person'', ON)])],
                      contours = [(''front'', [(0, 0), (100, 0), (100, 100), (0, 100)])]\<rparr>)]\<rparr>"



section \<open>Properties\<close>

subsection \<open>Exceptions and the camera dictionary\<close>

lemma ebind_Inl: "ebind (Inl e) f = Inl e"
  by (simp add: ebind_def)

lemma ebind_Inr: "ebind (Inr a) f = f a"
  by (simp add: ebind_def)

lemma ebind_eq_Inr: "ebind m f = Inr r \<longleftrightarrow> (\<exists>a. m = Inr a \<and> f a = Inr r)"
  by (cases m) (simp_all add: ebind_def)

lemma best_record_entry: "best_record cd cam l = best_objects (cam_entry cd cam) l"
  by (simp add: best_record_def cam_entry_def default_camera_state_def split: option.splits)

lemma cam_entry_touch: "cam_entry (cam_touch cd c) c' = cam_entry cd c'"
  by (simp add: cam_touch_def cam_entry_def)

lemma cam_entry_upd: "cam_entry (cd(c \<mapsto> v)) c' = (if c' = c then v else cam_entry cd c')"
  by (simp add: cam_entry_def)

lemma score_with_frame: "score (with_frame obj f) = score obj"
  and frame_time_with_frame: "frame_time (with_frame obj f) = frame_time obj"
  and frame_with_frame: "frame (with_frame obj f) = f"
  by (simp_all add: with_frame_def tracked_object.defs best_object.defs)

subsection \<open>One turn of the loop, taken apart\<close>

lemma process_Inr:
  assumes "process cfg p item = Inr (p', effects)"
  obtains camera_cfg camera current cd1 deleted st1 object_msgs cd0 cd2 where
    "map_of (camera_config cfg) (q_camera item) = Some camera_cfg"
    "cd0 = (camera_data p)(q_camera item \<mapsto> (cam_entry (camera_data p) (q_camera item))
              \<lparr>tracked_objects := q_tracked_objects item, current_frame_time := q_frame_time item\<rparr>)"
    "objects_in_zones cfg (zone_data p) (q_camera item) (map snd (q_tracked_objects item))
       = Inr (camera, current)"
    "set_current_frame cfg camera_cfg (zone_data p) camera (q_frame_time item)
       (map snd (q_tracked_objects item)) current (plasma item (camera, q_frame_time item)) cd0
       = Inr (cd1, deleted)"
    "cd2 = best_objects_loop (q_camera item) camera (q_frame_time item) (clock item) 0
             (map snd (q_tracked_objects item)) cd1"
    "report_objects cfg camera (best_objects (cam_entry cd2 (q_camera item)))
       (map snd (q_tracked_objects item)) (object_status (cam_entry cd2 (q_camera item)))
       = Inr (st1, object_msgs)"
    "p' = \<lparr>camera_data = cd2(q_camera item \<mapsto> (cam_entry cd2 (q_camera item))\<lparr>object_status := st1\<rparr>),
           zone_data = fst (report_zones (topic_prefix cfg) camera current
                              (relevant_zones cfg camera) (zone_data p))\<rparr>"
    "effects = deleted @ snd (report_zones (topic_prefix cfg) camera current
                                (relevant_zones cfg camera) (zone_data p)) @ object_msgs"
proof -
  let ?objs = "map snd (q_tracked_objects item)"
  let ?cd0 = "(camera_data p)(q_camera item \<mapsto> (cam_entry (camera_data p) (q_camera item))
              \<lparr>tracked_objects := q_tracked_objects item, current_frame_time := q_frame_time item\<rparr>)"
  obtain camera_cfg where a: "map_of (camera_config cfg) (q_camera item) = Some camera_cfg"
    using assms by (cases "map_of (camera_config cfg) (q_camera item)") (simp_all add: process_def)
  obtain camera current where
    b: "objects_in_zones cfg (zone_data p) (q_camera item) ?objs = Inr (camera, current)"
    using assms a
    by (cases "objects_in_zones cfg (zone_data p) (q_camera item) ?objs")
       (auto simp: process_def ebind_def)
  let ?frame = "set_current_frame cfg camera_cfg (zone_data p) camera (q_frame_time item)
       ?objs current (plasma item (camera, q_frame_time item)) ?cd0"
  obtain cd1 deleted where c: "?frame = Inr (cd1, deleted)"
    using assms a b by (cases ?frame) (auto simp: process_def ebind_def)
  let ?cd2 = "best_objects_loop (q_camera item) camera (q_frame_time item) (clock item) 0 ?objs cd1"
  let ?report = "report_objects cfg camera (best_objects (cam_entry ?cd2 (q_camera item)))
       ?objs (object_status (cam_entry ?cd2 (q_camera item)))"
  obtain st1 object_msgs where d: "?report = Inr (st1, object_msgs)"
    using assms a b c
    by (cases ?report) (auto simp: process_def ebind_def Let_def split: prod.splits)
  have "p' = \<lparr>camera_data = ?cd2(q_camera item \<mapsto> (cam_entry ?cd2 (q_camera item))\<lparr>object_status := st1\<rparr>),
           zone_data = fst (report_zones (topic_prefix cfg) camera current
                              (relevant_zones cfg camera) (zone_data p))\<rparr>"
    and "effects = deleted @ snd (report_zones (topic_prefix cfg) camera current
                                (relevant_zones cfg camera) (zone_data p)) @ object_msgs"
    using assms a b c d
    by (auto simp: process_def ebind_def Let_def split: prod.splits)
  then show thesis
    using that [OF a refl b c refl d] by simp
qed

lemma set_current_frame_best:
  "set_current_frame cfg ccfg zd camera ftime objs current fetched cd = Inr (cd', deleted) \<Longrightarrow>
   best_record cd' c l = best_record cd c l"
  by (auto simp: set_current_frame_def ebind_eq_Inr best_record_entry cam_entry_upd Let_def
      split: option.splits)

subsection \<open>The accessor \<open>get_best\<close>\<close>

text \<open>
  Claim C10. For every camera and label, \<open>get_best\<close> returns \<open>None\<close> exactly when there
  is no best-sighting record for the pair, and the frame stored in the record otherwise;
  the query creates no best-sighting record (it leaves the record of every camera and
  label as it was; what the read of \<open>self.camera_data[camera]\<close> creates is the default
  entry of the camera, which has no record). The accessor has no exception branch: the
  key \<open>'frame'\<close> that it reads is part of every record, as the two places that store a
  record set it first.
\<close>

theorem get_best_record:
  "fst (get_best cd cam l) = map_option frame (best_record cd cam l) \<and>
   (fst (get_best cd cam l) = None \<longleftrightarrow> best_record cd cam l = None) \<and>
   (\<forall>c l'. best_record (snd (get_best cd cam l)) c l' = best_record cd c l')"
  by (simp add: get_best_def best_record_entry cam_entry_touch split: option.splits)

subsection \<open>The best sighting of a label\<close>

lemma best_object_step_stale:
  "frame_time obj \<noteq> ftime \<Longrightarrow> best_object_step camera0 camera ftime now obj cd = cd"
  by (simp add: best_object_step_def)

lemma best_record_step_other:
  "label obj \<noteq> l \<Longrightarrow>
   best_record (best_object_step camera0 camera ftime now obj cd) c l = best_record cd c l"
  by (simp add: best_object_step_def best_record_entry cam_entry_touch cam_entry_upd Let_def
      split: option.splits)

lemma best_record_loop_stale:
  "\<forall>obj \<in> set objs. label obj = l \<longrightarrow> frame_time obj \<noteq> ftime \<Longrightarrow>
   best_record (best_objects_loop camera0 camera ftime clk n objs cd) c l = best_record cd c l"
proof (induction objs arbitrary: n cd)
  case Nil
  then show ?case by simp
next
  case (Cons obj objs)
  have "best_record (best_object_step camera0 camera ftime (clk n) obj cd) c l = best_record cd c l"
  proof (cases "label obj = l")
    case True
    with Cons.prems have "frame_time obj \<noteq> ftime" by simp
    then show ?thesis by (simp add: best_object_step_stale)
  next
    case False
    then show ?thesis by (rule best_record_step_other)
  qed
  with Cons show ?case by simp
qed

text \<open>
  Claim C5. In a processed snapshot, a tracked object whose \<open>frame_time\<close> differs from the
  frame time of the snapshot leaves the best-sighting records as they are: the turn of the
  best-sighting loop for that object returns the state it was given, and when every object
  of a label in the snapshot is such an object, the record of that label is, after the
  whole turn of \<open>run\<close>, the record before it, for every camera.
\<close>

theorem stale_object_keeps_best:
  "(frame_time obj \<noteq> ftime \<longrightarrow> best_object_step camera0 camera ftime now obj cd = cd) \<and>
   (process cfg p item = Inr (p', effects) \<and>
    (\<forall>obj \<in> set (map snd (q_tracked_objects item)).
        label obj = l \<longrightarrow> frame_time obj \<noteq> q_frame_time item) \<longrightarrow>
    best_record (camera_data p') c l = best_record (camera_data p) c l)"
proof (intro conjI impI)
  assume "frame_time obj \<noteq> ftime"
  then show "best_object_step camera0 camera ftime now obj cd = cd"
    by (rule best_object_step_stale)
next
  assume asm: "process cfg p item = Inr (p', effects) \<and>
    (\<forall>obj \<in> set (map snd (q_tracked_objects item)).
        label obj = l \<longrightarrow> frame_time obj \<noteq> q_frame_time item)"
  then have run: "process cfg p item = Inr (p', effects)"
    and stale: "\<forall>obj \<in> set (map snd (q_tracked_objects item)).
        label obj = l \<longrightarrow> frame_time obj \<noteq> q_frame_time item"
    by simp_all
  from run obtain camera_cfg camera current cd1 deleted st1 object_msgs cd0 cd2 where
    cd0: "cd0 = (camera_data p)(q_camera item \<mapsto> (cam_entry (camera_data p) (q_camera item))
              \<lparr>tracked_objects := q_tracked_objects item, current_frame_time := q_frame_time item\<rparr>)"
    and frame: "set_current_frame cfg camera_cfg (zone_data p) camera (q_frame_time item)
       (map snd (q_tracked_objects item)) current (plasma item (camera, q_frame_time item)) cd0
       = Inr (cd1, deleted)"
    and cd2: "cd2 = best_objects_loop (q_camera item) camera (q_frame_time item) (clock item) 0
             (map snd (q_tracked_objects item)) cd1"
    and p': "camera_data p' = cd2(q_camera item \<mapsto> (cam_entry cd2 (q_camera item))\<lparr>object_status := st1\<rparr>)"
    by (rule process_Inr) simp
  have "best_record (camera_data p') c l = best_record cd2 c l"
    by (simp add: p' best_record_entry cam_entry_upd)
  also have "\<dots> = best_record cd1 c l"
    unfolding cd2 using stale by (rule best_record_loop_stale)
  also have "\<dots> = best_record cd0 c l"
    using frame by (rule set_current_frame_best)
  also have "\<dots> = best_record (camera_data p) c l"
    by (simp add: cd0 best_record_entry cam_entry_upd)
  finally show "best_record (camera_data p') c l = best_record (camera_data p) c l" .
qed

lemma process_stale_item:
  "process plain_config seen_person stale_item =
     Inr (\<lparr>camera_data = [''back'' \<mapsto> default_camera_state
              \<lparr>best_objects := [''person'' \<mapsto> with_frame (person (1/2) 100 10 [()]) zeros],
               tracked_objects := [(''id1'', person (9/10) 100 11 [()])],
               current_frame_time := 12\<rparr>],
            zone_data = []\<rparr>, [])"
  by (simp add: process_def plain_config_def seen_person_def stale_item_def person_def
      objects_in_zones_def set_current_frame_def best_object_step_def report_objects_def
      relevant_zones_def expired_objects_def cam_entry_def default_camera_state_def ebind_def)

theorem stale_object_keeps_best_witness:
  "frame_time (person (9/10) 100 11 [()]) \<noteq> 12 \<and>
   best_object_step ''back'' ''back'' 12 13 (person (9/10) 100 11 [()]) (camera_data seen_person)
     = camera_data seen_person \<and>
   map (\<lambda>obj. (label obj, frame_time obj)) (map snd (q_tracked_objects stale_item))
     = [(''person'', 11)] \<and>
   q_frame_time stale_item = 12 \<and>
   best_record (camera_data (fst (projr (process plain_config seen_person stale_item))))
       ''back'' ''person''
     = Some (with_frame (person (1/2) 100 10 [()]) zeros)"
  using stale_object_keeps_best [of "person (9/10) 100 11 [()]" 12 "''back''" "''back''" 13
      "camera_data seen_person" plain_config seen_person stale_item
      "fst (projr (process plain_config seen_person stale_item))"
      "snd (projr (process plain_config seen_person stale_item))" "''person''" "''back''"]
  by (simp add: process_stale_item)
     (simp add: person_def stale_item_def seen_person_def best_record_def)

lemma best_object_step_kept:
  assumes "best_record cd camera0 l = Some best"
    and "now - frame_time best \<le> 60"
  shows "\<exists>kept. best_record (best_object_step camera0 camera ftime now obj cd) camera0 l = Some kept \<and>
           score best \<le> score kept \<and> (frame_time kept = frame_time best \<or> frame_time kept = ftime)"
proof (cases "label obj = l")
  case False
  with assms(1) show ?thesis
    by (simp add: best_record_step_other)
next
  case True
  with assms show ?thesis
    by (auto simp: best_object_step_def best_record_entry cam_entry_touch cam_entry_upd Let_def
        score_with_frame frame_time_with_frame)
qed

lemma best_objects_loop_kept:
  "best_record cd camera0 l = Some best \<Longrightarrow>
   \<forall>i < length objs. clk (n + i) - frame_time best \<le> 60 \<and> clk (n + i) - ftime \<le> 60 \<Longrightarrow>
   \<exists>kept. best_record (best_objects_loop camera0 camera ftime clk n objs cd) camera0 l = Some kept \<and>
      score best \<le> score kept"
proof (induction objs arbitrary: n cd best)
  case Nil
  then show ?case by simp
next
  case (Cons obj objs)
  from Cons.prems(2) have now: "clk n - frame_time best \<le> 60"
    by fastforce
  from best_object_step_kept [OF Cons.prems(1) now, of camera ftime obj]
  obtain kept1 where
    k1: "best_record (best_object_step camera0 camera ftime (clk n) obj cd) camera0 l = Some kept1"
    and s1: "score best \<le> score kept1"
    and t1: "frame_time kept1 = frame_time best \<or> frame_time kept1 = ftime"
    by blast
  have "\<forall>i < length objs. clk (Suc n + i) - frame_time kept1 \<le> 60 \<and> clk (Suc n + i) - ftime \<le> 60"
  proof (intro allI impI)
    fix i assume "i < length objs"
    then have "Suc i < length (obj # objs)" by simp
    with Cons.prems(2) have "clk (n + Suc i) - frame_time best \<le> 60 \<and> clk (n + Suc i) - ftime \<le> 60"
      by blast
    with t1 show "clk (Suc n + i) - frame_time kept1 \<le> 60 \<and> clk (Suc n + i) - ftime \<le> 60"
      by auto
  qed
  from Cons.IH [OF k1 this] obtain kept where
    "best_record (best_objects_loop camera0 camera ftime clk (Suc n) objs
        (best_object_step camera0 camera ftime (clk n) obj cd)) camera0 l = Some kept"
    "score kept1 \<le> score kept"
    by blast
  with s1 show ?case
    by auto
qed

text \<open>
  Claim C4. For an object seen on the current frame (\<open>frame_time obj = ftime\<close>; the others
  are the matter of claim C5): where the camera has no best record for the label, the
  object, with a copy of the current frame, becomes the record. Where it has one, the
  object replaces it if its score is greater than the stored score or if more than 60
  seconds lie between the stored \<open>frame_time\<close> and the clock reading \<open>now\<close>, and
  otherwise the state is left as it was. Hence, as long as the clock is within 60 seconds
  of the capture time of the stored record, the score of the record that is kept does not
  go down, and once it is beyond, the object replaces the record whatever its score. The
  same holds along the loop over the objects of a snapshot: while every clock reading is
  within 60 seconds of the capture time of the record and of the frame time, the record
  kept at the end scores no less than the record at the start.
\<close>

theorem best_sighting_policy:
  assumes "frame_time obj = ftime"
  shows "(best_record cd camera0 (label obj) = None \<longrightarrow>
            best_record (best_object_step camera0 camera ftime now obj cd) camera0 (label obj)
              = Some (with_frame obj (current_frame (cam_entry cd camera)))) \<and>
         (\<forall>best. best_record cd camera0 (label obj) = Some best \<longrightarrow>
            (if score obj > score best \<or> now - frame_time best > 60
             then best_record (best_object_step camera0 camera ftime now obj cd) camera0 (label obj)
                    = Some (with_frame obj (current_frame (cam_entry cd camera)))
             else best_object_step camera0 camera ftime now obj cd = cd) \<and>
            (now - frame_time best \<le> 60 \<longrightarrow>
               (\<exists>kept. best_record (best_object_step camera0 camera ftime now obj cd) camera0 (label obj)
                          = Some kept \<and> score best \<le> score kept)) \<and>
            (now - frame_time best > 60 \<longrightarrow>
               best_record (best_object_step camera0 camera ftime now obj cd) camera0 (label obj)
                 = Some (with_frame obj (current_frame (cam_entry cd camera))))) \<and>
         (\<forall>best l. best_record cd camera0 l = Some best \<and>
            (\<forall>i < length objs. clk (n + i) - frame_time best \<le> 60 \<and> clk (n + i) - ftime \<le> 60)
            \<longrightarrow>
            (\<exists>kept. best_record (best_objects_loop camera0 camera ftime clk n objs cd) camera0 l
                       = Some kept \<and> score best \<le> score kept))"
proof -
  have step: "(best_record cd camera0 (label obj) = None \<longrightarrow>
            best_record (best_object_step camera0 camera ftime now obj cd) camera0 (label obj)
              = Some (with_frame obj (current_frame (cam_entry cd camera)))) \<and>
         (\<forall>best. best_record cd camera0 (label obj) = Some best \<longrightarrow>
            (if score obj > score best \<or> now - frame_time best > 60
             then best_record (best_object_step camera0 camera ftime now obj cd) camera0 (label obj)
                    = Some (with_frame obj (current_frame (cam_entry cd camera)))
             else best_object_step camera0 camera ftime now obj cd = cd) \<and>
            (now - frame_time best \<le> 60 \<longrightarrow>
               (\<exists>kept. best_record (best_object_step camera0 camera ftime now obj cd) camera0 (label obj)
                          = Some kept \<and> score best \<le> score kept)) \<and>
            (now - frame_time best > 60 \<longrightarrow>
               best_record (best_object_step camera0 camera ftime now obj cd) camera0 (label obj)
                 = Some (with_frame obj (current_frame (cam_entry cd camera)))))"
    using assms
    by (auto simp: best_object_step_def best_record_entry cam_entry_touch cam_entry_upd Let_def
        score_with_frame)
  have loop: "\<exists>kept. best_record (best_objects_loop camera0 camera ftime clk n objs cd) camera0 l
                       = Some kept \<and> score best \<le> score kept"
    if "best_record cd camera0 l = Some best \<and>
        (\<forall>i < length objs. clk (n + i) - frame_time best \<le> 60 \<and> clk (n + i) - ftime \<le> 60)"
    for best l
    using that best_objects_loop_kept [of cd camera0 l best objs clk n ftime camera] by blast
  from step loop show ?thesis
    by blast
qed

theorem best_sighting_policy_witness:
  "frame_time (person (9/10) 100 12 [()]) = 12 \<and>
   best_record (camera_data seen_person) ''back'' ''person''
     = Some (with_frame (person (1/2) 100 10 [()]) zeros) \<and>
   best_record (best_object_step ''back'' ''back'' 12 13 (person (9/10) 100 12 [()])
                  (camera_data seen_person)) ''back'' ''person''
     = Some (with_frame (person (9/10) 100 12 [()]) zeros) \<and>
   best_object_step ''back'' ''back'' 12 13 (person (1/4) 100 12 [()]) (camera_data seen_person)
     = camera_data seen_person \<and>
   best_record (best_object_step ''back'' ''back'' 12 71 (person (1/4) 100 12 [()])
                  (camera_data seen_person)) ''back'' ''person''
     = Some (with_frame (person (1/4) 100 12 [()]) zeros) \<and>
   best_record (best_objects_loop ''back'' ''back'' 12 (\<lambda>n. 13) 0
                  [person (1/4) 100 12 [()], person (9/10) 100 12 [()]]
                  (camera_data seen_person)) ''back'' ''person''
     = Some (with_frame (person (9/10) 100 12 [()]) zeros)"
  using best_sighting_policy [of "person (9/10) 100 12 [()]" 12 "camera_data seen_person" "''back''" "''back''" 13
      "[person (1/4) 100 12 [()], person (9/10) 100 12 [()]]" "\<lambda>n. 13" 0]
    best_sighting_policy [of "person (1/4) 100 12 [()]" 12 "camera_data seen_person" "''back''" "''back''" 13 "[]" "\<lambda>n. 13" 0]
    best_sighting_policy [of "person (1/4) 100 12 [()]" 12 "camera_data seen_person" "''back''" "''back''" 71 "[]" "\<lambda>n. 13" 0]
  by (simp add: person_def seen_person_def best_record_def cam_entry_def default_camera_state_def
      score_with_frame frame_time_with_frame best_object_step_def cam_touch_def)

subsection \<open>Objects in zones\<close>

lemma init_porch: "zone_data (init porch_config) =
   [(''porch'', \<lparr>zone_object_status = [], contours = [(''back'', [(0, 0), (100, 0), (100, 100), (0, 100)])]\<rparr>)]"
  by (simp add: init_def porch_config_def zone_entry_def default_zone_state_def)

text \<open>
  Claim C2, on the zone \<open>porch\<close> of \<open>porch_config\<close>, whose filter for persons has
  \<open>min_area = 5000\<close>, and a person of area 100 whose bottom centre is inside the polygon:
  line 115 hands \<open>zone_filtered\<close> the value of the key \<open>'filters'\<close>, and
  \<open>zone_filtered\<close> looks the key \<open>'filters'\<close> up in it once more, finds none, and
  answers \<open>False\<close>; the person is appended to the zone. Handed the dictionary that holds
  the key \<open>'filters'\<close>, \<open>zone_filtered\<close> answers \<open>True\<close> for this person.
\<close>

theorem zone_filter_not_applied:
  "zone_filters porch_config ''porch'' ''back'' = Inr porch_filter \<and>
   zone_filtered (person (9/10) 100 12 [()]) porch_filter = Inr False \<and>
   zone_filtered (person (9/10) 100 12 [()]) (PDict [(''filters'', porch_filter)]) = Inr True \<and>
   objects_in_zones porch_config (zone_data (init porch_config)) ''back'' [person (9/10) 100 12 [()]]
     = Inr (''back'', (\<lambda>name. [])(''porch'' := [''person'']))"
  by (simp add: init_porch)
     (simp add: porch_config_def porch_filter_def zone_filters_def zone_filtered_def py_get_def
      py_in_def py_index_def py_gt_def person_def objects_in_zones_def bottom_center_def
      box3_def rectangle_test_def ebind_def)

lemma init_yard: "zone_data (init yard_config) =
   [(''yard'', \<lparr>zone_object_status = [],
       contours = [(''back'', [(200, 200), (300, 200), (300, 300), (200, 300)]),
                   (''front'', [(0, 0), (100, 0), (100, 100), (0, 100)])]\<rparr>),
    (''drive'', \<lparr>zone_object_status = [],
       contours = [(''front'', [(0, 0), (100, 0), (100, 100), (0, 100)])]\<rparr>)]"
  by (simp add: init_def yard_config_def zone_entry_def default_zone_state_def)

text \<open>
  Claim C3, on \<open>yard_config\<close> and a snapshot of camera \<open>back\<close> with a person whose
  bottom centre \<open>(5, 10)\<close> is outside the polygon that zone \<open>yard\<close> has for \<open>back\<close>:
  the loop of line 114 runs over the polygons of every camera of the zone, so the polygon
  of camera \<open>front\<close> puts the person in \<open>yard\<close>, and in \<open>drive\<close>, a zone that has no
  polygon for \<open>back\<close>; the variable \<open>camera\<close> is \<open>front\<close> after the loop.
\<close>

theorem other_camera_polygon_counts:
  "rectangle_test [(200, 200), (300, 200), (300, 300), (200, 300)]
      (bottom_center (person (9/10) 100 12 [()])) < 0 \<and>
   objects_in_zones yard_config (zone_data (init yard_config)) ''back'' [person (9/10) 100 12 [()]]
     = Inr (''front'', (\<lambda>name. [])(''yard'' := [''person''], ''drive'' := [''person'']))"
  by (simp add: init_yard)
     (simp add: yard_config_def zone_filters_def zone_filtered_def py_get_def
      py_in_def person_def objects_in_zones_def bottom_center_def box3_def rectangle_test_def
      ebind_def)

subsection \<open>Presence of a label in the whole frame\<close>

lemma set_update_subset: "set (AList.update k v al) \<subseteq> insert (k, v) (set al)"
  by (induction al) auto

lemma count_objects_keys:
  "fst ` set (count_objects objs oc) =
     fst ` set oc \<union> {l. counted objs l}"
  by (induction objs arbitrary: oc) (auto simp: counted_def AList.dom_update)

lemma count_objects_distinct:
  "distinct (map fst oc) \<Longrightarrow> distinct (map fst (count_objects objs oc))"
  by (induction objs arbitrary: oc) (simp_all add: AList.distinct_update)

lemma in_set_update: "x \<in> set (AList.update k v al) \<Longrightarrow> x = (k, v) \<or> x \<in> set al"
  using set_update_subset [of k v al] by auto

lemma count_objects_pos:
  "\<forall>x \<in> set oc. snd x > 0 \<Longrightarrow> \<forall>x \<in> set (count_objects objs oc). snd x > 0"
proof (induction objs arbitrary: oc)
  case Nil
  then show ?case by simp
next
  case (Cons obj objs)
  let ?oc' = "AList.update (label obj)
               (case map_of oc (label obj) of None \<Rightarrow> 1 | Some c \<Rightarrow> c + 1) oc"
  have "\<forall>x \<in> set ?oc'. snd x > 0"
    using Cons.prems by (auto dest!: in_set_update split: option.splits)
  with Cons show ?case by simp
qed

lemma publish_snapshot_Inr:
  "publish_snapshot cfg camera best l = Inr snap \<longleftrightarrow>
     best l \<noteq> None \<and> snap = snapshot_msgs cfg camera best l"
  by (auto simp: publish_snapshot_def snapshot_msgs_def split: option.splits)

lemma report_detected_Inr:
  "report_detected cfg camera best oc st = Inr (st', msgs) \<Longrightarrow>
   distinct (map fst oc) \<Longrightarrow> \<forall>x \<in> set oc. snd x > 0 \<Longrightarrow>
   map_of st' = (\<lambda>l. if l \<in> fst ` set oc then Some ON else map_of st l) \<and>
   msgs = concat (map (on_msgs cfg camera best (map_of st)) (map fst oc)) \<and>
   (\<forall>l \<in> fst ` set oc. map_of st l \<noteq> Some ON \<longrightarrow> best l \<noteq> None) \<and>
   (distinct (map fst st) \<longrightarrow> distinct (map fst st'))"
proof (induction oc arbitrary: st st' msgs)
  case Nil
  then show ?case by simp
next
  case (Cons x oc)
  obtain l c where x: "x = (l, c)" by (cases x)
  from Cons.prems x have c: "c > 0" and l: "l \<notin> fst ` set oc"
    and d: "distinct (map fst oc)" and pos: "\<forall>x \<in> set oc. snd x > 0"
    by auto
  show ?case
  proof (cases "map_of st l = Some ON")
    case True
    with Cons.prems(1) x c have "report_detected cfg camera best oc st = Inr (st', msgs)"
      by simp
    from Cons.IH [OF this d pos] True l show ?thesis
      by (auto simp: x on_msgs_def)
  next
    case False
    with Cons.prems(1) x c obtain msgs' where
      b: "best l \<noteq> None"
      and r: "report_detected cfg camera best oc (AList.update l ON st) = Inr (st', msgs')"
      and m: "msgs = Publish (camera_topic (topic_prefix cfg) camera l) (Text ''ON'') False
                       # snapshot_msgs cfg camera best l @ msgs'"
      by (auto simp: ebind_eq_Inr publish_snapshot_Inr status_text_def)
    have "map (on_msgs cfg camera best (map_of (AList.update l ON st))) (map fst oc)
             = map (on_msgs cfg camera best (map_of st)) (map fst oc)"
      using l by (auto simp: on_msgs_def AList.update_conv')
    then have same: "concat (map (on_msgs cfg camera best (map_of (AList.update l ON st))) (map fst oc))
             = concat (map (on_msgs cfg camera best (map_of st)) (map fst oc))"
      by (rule arg_cong)
    from Cons.IH [OF r d pos]
    have ih1: "map_of st' = (\<lambda>k. if k \<in> fst ` set oc then Some ON else map_of (AList.update l ON st) k)"
      and ih2: "msgs' = concat (map (on_msgs cfg camera best (map_of (AList.update l ON st))) (map fst oc))"
      and ih3: "\<forall>k \<in> fst ` set oc. map_of (AList.update l ON st) k \<noteq> Some ON \<longrightarrow> best k \<noteq> None"
      and ih4: "distinct (map fst (AList.update l ON st)) \<longrightarrow> distinct (map fst st')"
      by blast+
    have here: "on_msgs cfg camera best (map_of st) l =
        Publish (camera_topic (topic_prefix cfg) camera l) (Text ''ON'') False
          # snapshot_msgs cfg camera best l"
      using False by (simp add: on_msgs_def)
    have 1: "map_of st' = (\<lambda>k. if k \<in> fst ` set (x # oc) then Some ON else map_of st k)"
      using ih1 by (auto simp: x AList.update_conv' fun_eq_iff)
    have 2: "msgs = concat (map (on_msgs cfg camera best (map_of st)) (map fst (x # oc)))"
      unfolding m ih2 same x by (simp add: here)
    have 3: "\<forall>k \<in> fst ` set (x # oc). map_of st k \<noteq> Some ON \<longrightarrow> best k \<noteq> None"
    proof
      fix k assume k: "k \<in> fst ` set (x # oc)"
      show "map_of st k \<noteq> Some ON \<longrightarrow> best k \<noteq> None"
      proof (cases "k = l")
        case True
        with b show ?thesis by simp
      next
        case False
        with k have "k \<in> fst ` set oc" by (auto simp: x)
        with ih3 False show ?thesis by (auto simp: AList.update_conv')
      qed
    qed
    have 4: "distinct (map fst st) \<longrightarrow> distinct (map fst st')"
      using ih4 by (simp add: AList.distinct_update)
    from 1 2 3 4 show ?thesis by blast
  qed
qed

lemma expire_objects_Inr:
  "expire_objects cfg camera best ls st = Inr (st', msgs) \<Longrightarrow>
   map_of st' = (\<lambda>l. if l \<in> set ls then Some OFF else map_of st l) \<and>
   msgs = concat (map (off_msgs cfg camera best) ls) \<and>
   (\<forall>l \<in> set ls. best l \<noteq> None) \<and>
   (distinct (map fst st) \<longrightarrow> distinct (map fst st'))"
proof (induction ls arbitrary: st st' msgs)
  case Nil
  then show ?case by simp
next
  case (Cons l ls)
  from Cons.prems obtain msgs' where
    b: "best l \<noteq> None"
    and r: "expire_objects cfg camera best ls (AList.update l OFF st) = Inr (st', msgs')"
    and m: "msgs = off_msgs cfg camera best l @ msgs'"
    by (auto simp: ebind_eq_Inr publish_snapshot_Inr off_msgs_def)
  from Cons.IH [OF r] b m show ?case
    by (auto simp: AList.update_conv' AList.distinct_update)
qed

lemma set_expired_objects:
  assumes "distinct (map fst st)"
  shows "set (expired_objects st oc) = {l. map_of st l = Some ON \<and> l \<notin> fst ` set oc}"
  using assms
  by (auto simp: expired_objects_def map_of_eq_None_iff image_iff)

lemma report_objects_Inr:
  assumes "report_objects cfg camera best objs st = Inr (st', msgs)"
    and "distinct (map fst st)"
  shows "map_of st' l = (if counted objs l then Some ON
                         else if map_of st l = Some ON then Some OFF else map_of st l)"
    and "set msgs = (\<Union>k \<in> {k. counted objs k}. set (on_msgs cfg camera best (map_of st) k)) \<union>
                    (\<Union>k \<in> {k. \<not> counted objs k \<and> map_of st k = Some ON}.
                        set (off_msgs cfg camera best k))"
    and "(map_of st l = Some ON) \<noteq> counted objs l \<Longrightarrow> best l \<noteq> None"
proof -
  let ?oc = "count_objects objs []"
  have keys: "fst ` set ?oc = {k. counted objs k}"
    by (simp add: count_objects_keys)
  have d: "distinct (map fst ?oc)"
    by (rule count_objects_distinct) simp
  have pos: "\<forall>x \<in> set ?oc. snd x > 0"
    by (rule count_objects_pos) simp
  from assms(1) obtain st1 msgs1 msgs2 where
    r1: "report_detected cfg camera best ?oc st = Inr (st1, msgs1)"
    and r2: "expire_objects cfg camera best (expired_objects st1 ?oc) st1 = Inr (st', msgs2)"
    and m: "msgs = msgs1 @ msgs2"
    by (auto simp: report_objects_def Let_def ebind_eq_Inr)
  from report_detected_Inr [OF r1 d pos] assms(2) keys
  have st1: "map_of st1 = (\<lambda>k. if counted objs k then Some ON else map_of st k)"
    and msgs1: "msgs1 = concat (map (on_msgs cfg camera best (map_of st)) (map fst ?oc))"
    and best1: "\<forall>k. counted objs k \<and> map_of st k \<noteq> Some ON \<longrightarrow> best k \<noteq> None"
    and d1: "distinct (map fst st1)"
    by auto
  have ex: "set (expired_objects st1 ?oc) = {k. \<not> counted objs k \<and> map_of st k = Some ON}"
    using set_expired_objects [OF d1, of ?oc] by (auto simp: keys st1)
  from expire_objects_Inr [OF r2] ex
  have st2: "map_of st' = (\<lambda>k. if \<not> counted objs k \<and> map_of st k = Some ON then Some OFF
                                 else map_of st1 k)"
    and msgs2: "msgs2 = concat (map (off_msgs cfg camera best) (expired_objects st1 ?oc))"
    and best2: "\<forall>k. \<not> counted objs k \<and> map_of st k = Some ON \<longrightarrow> best k \<noteq> None"
    by auto
  show "map_of st' l = (if counted objs l then Some ON
                         else if map_of st l = Some ON then Some OFF else map_of st l)"
    by (simp add: st2 st1)
  have "set msgs1 = (\<Union>k \<in> fst ` set ?oc. set (on_msgs cfg camera best (map_of st) k))"
    unfolding msgs1 by simp
  then have "set msgs1 = (\<Union>k \<in> {k. counted objs k}. set (on_msgs cfg camera best (map_of st) k))"
    unfolding keys .
  moreover have "set msgs2 = (\<Union>k \<in> {k. \<not> counted objs k \<and> map_of st k = Some ON}.
                        set (off_msgs cfg camera best k))"
    unfolding msgs2 by (simp add: ex)
  ultimately show "set msgs = (\<Union>k \<in> {k. counted objs k}. set (on_msgs cfg camera best (map_of st) k)) \<union>
                    (\<Union>k \<in> {k. \<not> counted objs k \<and> map_of st k = Some ON}.
                        set (off_msgs cfg camera best k))"
    by (simp add: m)
  show "(map_of st l = Some ON) \<noteq> counted objs l \<Longrightarrow> best l \<noteq> None"
    using best1 best2 by blast
qed

lemma counted_iff: "counted objs l \<longleftrightarrow> (\<exists>obj \<in> set objs. label obj = l \<and> length (history obj) > 1)"
  by (simp add: counted_def list_ex_iff)

lemma jpeg_in_snapshot_msgs:
  "Publish (snapshot_topic (topic_prefix cfg) camera l) (Jpeg jpg) r \<in> set (snapshot_msgs cfg camera best k)
     \<longleftrightarrow> k = l \<and> r = True \<and> (\<exists>b. best l = Some b \<and> imencode cfg (frame b) = Some jpg)"
  by (cases "best k"; cases "best l")
     (auto simp: snapshot_msgs_def snapshot_topic_def split: option.splits)

lemma text_in_snapshot_msgs:
  "Publish t (Text s) r \<notin> set (snapshot_msgs cfg camera best k)"
  by (simp add: snapshot_msgs_def split: option.splits)

lemma on_in_on_msgs:
  "Publish (camera_topic (topic_prefix cfg) camera l) (Text ''ON'') r \<in> set (on_msgs cfg camera best m k)
     \<longleftrightarrow> k = l \<and> r = False \<and> m l \<noteq> Some ON"
  by (auto simp: on_msgs_def camera_topic_def text_in_snapshot_msgs)

lemma off_in_on_msgs:
  "Publish t (Text ''OFF'') r \<notin> set (on_msgs cfg camera best m k)"
  by (simp add: on_msgs_def text_in_snapshot_msgs)

lemma on_in_off_msgs:
  "Publish t (Text ''ON'') r \<notin> set (off_msgs cfg camera best k)"
  by (simp add: off_msgs_def text_in_snapshot_msgs)

lemma off_in_off_msgs:
  "Publish (camera_topic (topic_prefix cfg) camera l) (Text ''OFF'') r \<in> set (off_msgs cfg camera best k)
     \<longleftrightarrow> k = l \<and> r = False"
  by (auto simp: off_msgs_def camera_topic_def text_in_snapshot_msgs)

lemma jpeg_in_on_msgs:
  "Publish (snapshot_topic (topic_prefix cfg) camera l) (Jpeg jpg) r \<in> set (on_msgs cfg camera best m k)
     \<longleftrightarrow> k = l \<and> r = True \<and> m l \<noteq> Some ON \<and>
          (\<exists>b. best l = Some b \<and> imencode cfg (frame b) = Some jpg)"
  by (auto simp: on_msgs_def jpeg_in_snapshot_msgs)

lemma jpeg_in_off_msgs:
  "Publish (snapshot_topic (topic_prefix cfg) camera l) (Jpeg jpg) r \<in> set (off_msgs cfg camera best k)
     \<longleftrightarrow> k = l \<and> r = True \<and> (\<exists>b. best l = Some b \<and> imencode cfg (frame b) = Some jpg)"
  by (auto simp: off_msgs_def jpeg_in_snapshot_msgs)


lemma report_detected_total:
  "\<forall>k \<in> fst ` set oc. map_of st k \<noteq> Some ON \<longrightarrow> best k \<noteq> None \<Longrightarrow>
   distinct (map fst oc) \<Longrightarrow> \<forall>x \<in> set oc. snd x > 0 \<Longrightarrow>
   \<exists>res. report_detected cfg camera best oc st = Inr res"
proof (induction oc arbitrary: st)
  case Nil
  then show ?case by simp
next
  case (Cons x oc)
  obtain l c where x: "x = (l, c)" by (cases x)
  from Cons.prems x have c: "c > 0" and l: "l \<notin> fst ` set oc"
    and d: "distinct (map fst oc)" and pos: "\<forall>x \<in> set oc. snd x > 0"
    by auto
  show ?case
  proof (cases "map_of st l = Some ON")
    case True
    have "\<exists>res. report_detected cfg camera best oc st = Inr res"
      using Cons.prems(1) by (intro Cons.IH d pos) (simp add: x)
    with True c show ?thesis by (simp add: x)
  next
    case False
    with Cons.prems(1) have b: "best l \<noteq> None" by (simp add: x)
    have "\<forall>k \<in> fst ` set oc. map_of (AList.update l ON st) k \<noteq> Some ON \<longrightarrow> best k \<noteq> None"
      using Cons.prems(1) l by (auto simp: x AList.update_conv')
    from Cons.IH [OF this d pos] obtain st' msgs where
      "report_detected cfg camera best oc (AList.update l ON st) = Inr (st', msgs)"
      by auto
    with False c b show ?thesis
      by (auto simp: x ebind_def publish_snapshot_def split: option.splits)
  qed
qed

lemma expire_objects_total:
  "\<forall>k \<in> set ls. best k \<noteq> None \<Longrightarrow> \<exists>res. expire_objects cfg camera best ls st = Inr res"
proof (induction ls arbitrary: st)
  case Nil
  then show ?case by simp
next
  case (Cons l ls)
  then obtain st' msgs where
    "expire_objects cfg camera best ls (AList.update l OFF st) = Inr (st', msgs)"
    by fastforce
  with Cons.prems show ?case
    by (auto simp: ebind_def publish_snapshot_def split: option.splits)
qed

lemma report_objects_total:
  assumes "distinct (map fst st)"
    and "\<forall>k. (map_of st k = Some ON) \<noteq> counted objs k \<longrightarrow> best k \<noteq> None"
  shows "\<exists>st' msgs. report_objects cfg camera best objs st = Inr (st', msgs)"
proof -
  let ?oc = "count_objects objs []"
  have keys: "fst ` set ?oc = {k. counted objs k}"
    by (simp add: count_objects_keys)
  have d: "distinct (map fst ?oc)"
    by (rule count_objects_distinct) simp
  have pos: "\<forall>x \<in> set ?oc. snd x > 0"
    by (rule count_objects_pos) simp
  have "\<forall>k \<in> fst ` set ?oc. map_of st k \<noteq> Some ON \<longrightarrow> best k \<noteq> None"
    unfolding keys using assms(2) by auto
  from report_detected_total [OF this d pos, of cfg camera] obtain st1 msgs1 where
    r1: "report_detected cfg camera best ?oc st = Inr (st1, msgs1)"
    by (cases "report_detected cfg camera best ?oc st") auto
  from report_detected_Inr [OF r1 d pos] assms(1) keys
  have st1: "map_of st1 = (\<lambda>k. if counted objs k then Some ON else map_of st k)"
    and d1: "distinct (map fst st1)"
    by auto
  have "set (expired_objects st1 ?oc) = {k. \<not> counted objs k \<and> map_of st k = Some ON}"
    using set_expired_objects [OF d1, of ?oc] by (auto simp: keys st1)
  with assms(2) have "\<forall>k \<in> set (expired_objects st1 ?oc). best k \<noteq> None"
    by auto
  from expire_objects_total [OF this, of cfg camera st1] obtain st2 msgs2 where
    "expire_objects cfg camera best (expired_objects st1 ?oc) st1 = Inr (st2, msgs2)"
    by (cases "expire_objects cfg camera best (expired_objects st1 ?oc) st1") auto
  with r1 show ?thesis
    by (simp add: report_objects_def ebind_def)
qed

text \<open>
  Claim C9. Let every label at a presence edge have a best record (its frame is what is
  encoded), and let \<open>l\<close> be a label at an edge whose best frame fails to encode. Then the
  presence block raises nothing, the \<open>ON\<close> or \<open>OFF\<close> message of the edge is published,
  the stored status of \<open>l\<close> is the new one, and nothing is published on the snapshot topic
  of \<open>l\<close>.
\<close>

theorem failed_encoding_skips_snapshot:
  assumes "distinct (map fst st)"
    and "\<forall>k. (map_of st k = Some ON) \<noteq> (\<exists>obj \<in> set objs. label obj = k \<and> length (history obj) > 1)
           \<longrightarrow> best k \<noteq> None"
    and "(map_of st l = Some ON) \<noteq> (\<exists>obj \<in> set objs. label obj = l \<and> length (history obj) > 1)"
    and "best l = Some b" and "imencode cfg (frame b) = None"
  shows "\<exists>st' msgs. report_objects cfg camera best objs st = Inr (st', msgs) \<and>
           Publish (camera_topic (topic_prefix cfg) camera l)
             (status_text (if map_of st l = Some ON then OFF else ON)) False \<in> set msgs \<and>
           map_of st' l = Some (if map_of st l = Some ON then OFF else ON) \<and>
           (\<forall>jpg r. Publish (snapshot_topic (topic_prefix cfg) camera l) (Jpeg jpg) r \<notin> set msgs)"
proof -
  from assms(2) have "\<forall>k. (map_of st k = Some ON) \<noteq> counted objs k \<longrightarrow> best k \<noteq> None"
    by (simp add: counted_iff)
  from report_objects_total [OF assms(1) this] obtain st' msgs where
    run: "report_objects cfg camera best objs st = Inr (st', msgs)"
    by blast
  note r = report_objects_Inr [OF run assms(1)]
  from assms(3) have edge: "(map_of st l = Some ON) \<noteq> counted objs l"
    by (simp add: counted_iff)
  have "map_of st' l = Some (if map_of st l = Some ON then OFF else ON)"
    using edge by (auto simp: r(1))
  moreover have "Publish (camera_topic (topic_prefix cfg) camera l)
             (status_text (if map_of st l = Some ON then OFF else ON)) False \<in> set msgs"
    unfolding r(2) using edge
    by (auto simp: status_text_def on_in_on_msgs on_in_off_msgs off_in_on_msgs off_in_off_msgs)
  moreover have "\<forall>jpg r. Publish (snapshot_topic (topic_prefix cfg) camera l) (Jpeg jpg) r \<notin> set msgs"
    unfolding r(2) using assms(4,5) by (auto simp: jpeg_in_on_msgs jpeg_in_off_msgs)
  ultimately show ?thesis
    using run by blast
qed


theorem failed_encoding_skips_snapshot_witness:
  "report_objects mute_config ''back'' best_person [person (9/10) 100 12 [(), ()]] []
     = Inr ([(''person'', ON)], [Publish ''frigate/back/person'' (Text ''ON'') False]) \<and>
   best_person ''person'' = Some (with_frame (person (1/2) 100 10 [()]) zeros) \<and>
   imencode mute_config (frame (with_frame (person (1/2) 100 10 [()]) zeros)) = None \<and>
   camera_topic (topic_prefix mute_config) ''back'' ''person'' = ''frigate/back/person''"
proof -
  let ?objs = "[person (9/10) 100 12 [(), ()]]"
  have d: "distinct (map fst ([] :: (label \<times> status) list))"
    by simp
  have all: "\<forall>k. (map_of ([] :: (label \<times> status) list) k = Some ON)
               \<noteq> (\<exists>obj \<in> set ?objs. label obj = k \<and> length (history obj) > 1)
             \<longrightarrow> best_person k \<noteq> None"
    by (simp add: person_def best_person_def)
  have edge: "(map_of ([] :: (label \<times> status) list) ''person'' = Some ON)
               \<noteq> (\<exists>obj \<in> set ?objs. label obj = ''person'' \<and> length (history obj) > 1)"
    by (simp add: person_def)
  have b: "best_person ''person'' = Some (with_frame (person (1/2) 100 10 [()]) zeros)"
    by (simp add: best_person_def)
  have e: "imencode mute_config (frame (with_frame (person (1/2) 100 10 [()]) zeros)) = None"
    by (simp add: mute_config_def)
  from failed_encoding_skips_snapshot [OF d all edge b e, of "''back''"] b e
  show ?thesis
    by (simp add: report_objects_def mute_config_def best_person_def person_def ebind_def
      publish_snapshot_def expired_objects_def camera_topic_def status_text_def frame_with_frame)
qed

subsection \<open>The frame store handle and the current frame\<close>

lemma plasma_deletes_append: "plasma_deletes (xs @ ys) = plasma_deletes xs @ plasma_deletes ys"
  by (induction xs rule: plasma_deletes.induct) simp_all

lemma best_object_step_frames:
  "object_id (cam_entry (best_object_step camera0 camera ftime now obj cd) c) = object_id (cam_entry cd c)"
  "current_frame (cam_entry (best_object_step camera0 camera ftime now obj cd) c) = current_frame (cam_entry cd c)"
  by (simp_all add: best_object_step_def cam_entry_touch cam_entry_upd Let_def split: option.splits)

lemma best_objects_loop_frames:
  "held_handle (best_objects_loop camera0 camera ftime clk n objs cd) c = held_handle cd c"
  "shown_frame (best_objects_loop camera0 camera ftime clk n objs cd) c = shown_frame cd c"
  by (induction objs arbitrary: n cd) (simp_all add: held_handle_def shown_frame_def best_object_step_frames)

lemma report_label_deletes: "plasma_deletes (snd (report_label prefix z camera current l os)) = []"
  by (simp add: report_label_def Let_def split: prod.splits)

lemma labels_loop_Cons:
  "labels_loop prefix z camera current (l # rest) os =
     (fst (labels_loop prefix z camera current rest (fst (report_label prefix z camera current l os))),
      snd (report_label prefix z camera current l os) @
      snd (labels_loop prefix z camera current rest (fst (report_label prefix z camera current l os))))"
  by (simp add: case_prod_beta)

lemma report_zones_Cons:
  "report_zones prefix camera current (z # rest) zd =
     (fst (report_zones prefix camera current rest (fst (report_zone prefix camera current z zd))),
      snd (report_zone prefix camera current z zd) @
      snd (report_zones prefix camera current rest (fst (report_zone prefix camera current z zd))))"
  by (simp add: case_prod_beta)

lemma labels_loop_deletes: "plasma_deletes (snd (labels_loop prefix z camera current ls os)) = []"
  by (induction ls arbitrary: os)
     (simp_all add: labels_loop_Cons plasma_deletes_append report_label_deletes del: labels_loop.simps(2))

lemma report_zone_deletes: "plasma_deletes (snd (report_zone prefix camera current z zd)) = []"
  by (simp add: report_zone_def Let_def case_prod_beta labels_loop_deletes)

lemma report_zones_deletes: "plasma_deletes (snd (report_zones prefix camera current zs zd)) = []"
  by (induction zs arbitrary: zd)
     (simp_all add: report_zones_Cons plasma_deletes_append report_zone_deletes del: report_zones.simps(2))

lemma publish_snapshot_deletes:
  "publish_snapshot cfg camera best l = Inr snap \<Longrightarrow> plasma_deletes snap = []"
  by (auto simp: publish_snapshot_def split: option.splits)

lemma report_detected_deletes:
  "report_detected cfg camera best oc st = Inr (st', msgs) \<Longrightarrow> plasma_deletes msgs = []"
proof (induction oc arbitrary: st st' msgs)
  case Nil
  then show ?case by simp
next
  case (Cons x oc)
  obtain l c where x: "x = (l, c)" by (cases x)
  show ?case
  proof (cases "map_of st l \<noteq> Some (if c > 0 then ON else OFF)")
    case True
    with Cons.prems x obtain snap msgs' where
      "publish_snapshot cfg camera best l = Inr snap"
      "report_detected cfg camera best oc (AList.update l (if c > 0 then ON else OFF) st) = Inr (st', msgs')"
      "msgs = Publish (camera_topic (topic_prefix cfg) camera l)
                (status_text (if c > 0 then ON else OFF)) False # snap @ msgs'"
      by (auto simp: ebind_eq_Inr Let_def)
    with Cons.IH publish_snapshot_deletes show ?thesis
      by (simp add: plasma_deletes_append)
  next
    case False
    with Cons.prems x Cons.IH show ?thesis
      by (auto simp: Let_def)
  qed
qed

lemma expire_objects_deletes:
  "expire_objects cfg camera best ls st = Inr (st', msgs) \<Longrightarrow> plasma_deletes msgs = []"
proof (induction ls arbitrary: st st' msgs)
  case Nil
  then show ?case by simp
next
  case (Cons l ls)
  from Cons.prems obtain snap msgs' where
    "publish_snapshot cfg camera best l = Inr snap"
    "expire_objects cfg camera best ls (AList.update l OFF st) = Inr (st', msgs')"
    "msgs = Publish (camera_topic (topic_prefix cfg) camera l) (Text ''OFF'') False # snap @ msgs'"
    by (auto simp: ebind_eq_Inr)
  with Cons.IH publish_snapshot_deletes show ?case
    by (simp add: plasma_deletes_append)
qed

lemma report_objects_deletes:
  "report_objects cfg camera best objs st = Inr (st', msgs) \<Longrightarrow> plasma_deletes msgs = []"
  by (auto simp: report_objects_def Let_def ebind_eq_Inr plasma_deletes_append
      dest: report_detected_deletes expire_objects_deletes)

lemma set_current_frame_None:
  "set_current_frame cfg ccfg zd camera ftime objs current None cd = Inr (cd, [])"
  by (simp add: set_current_frame_def)

lemma set_current_frame_Some:
  assumes "set_current_frame cfg ccfg zd camera ftime objs current (Some raw) cd = Inr (cd', deleted)"
  shows "held_handle cd' camera = Some (camera, ftime)"
    and "annotate cfg ccfg zd camera ftime objs current raw = Inr (shown_frame cd' camera)"
    and "c \<noteq> camera \<Longrightarrow> held_handle cd' c = held_handle cd c \<and> shown_frame cd' c = shown_frame cd c"
    and "deleted = (case held_handle cd camera of None \<Rightarrow> [] | Some previous \<Rightarrow> [PlasmaDelete previous])"
  using assms
  by (auto simp: set_current_frame_def held_handle_def shown_frame_def ebind_eq_Inr Let_def
      cam_entry_upd split: option.splits)

lemma process_frames:
  assumes "process cfg p item = Inr (p', effects)"
    and "objects_in_zones cfg (zone_data p) (q_camera item) (map snd (q_tracked_objects item))
           = Inr (camera, current)"
  shows "\<exists>camera_cfg cd1 deleted.
    map_of (camera_config cfg) (q_camera item) = Some camera_cfg \<and>
    set_current_frame cfg camera_cfg (zone_data p) camera (q_frame_time item)
       (map snd (q_tracked_objects item)) current (plasma item (camera, q_frame_time item))
       ((camera_data p)(q_camera item \<mapsto> (cam_entry (camera_data p) (q_camera item))
              \<lparr>tracked_objects := q_tracked_objects item, current_frame_time := q_frame_time item\<rparr>))
       = Inr (cd1, deleted) \<and>
    (\<forall>c. held_handle (camera_data p') c = held_handle cd1 c) \<and>
    (\<forall>c. shown_frame (camera_data p') c = shown_frame cd1 c) \<and>
    plasma_deletes effects = plasma_deletes deleted"
proof -
  from assms(1) obtain camera_cfg camera' current' cd1 deleted st1 object_msgs cd0 cd2 where
    a: "map_of (camera_config cfg) (q_camera item) = Some camera_cfg"
    and cd0: "cd0 = (camera_data p)(q_camera item \<mapsto> (cam_entry (camera_data p) (q_camera item))
              \<lparr>tracked_objects := q_tracked_objects item, current_frame_time := q_frame_time item\<rparr>)"
    and z: "objects_in_zones cfg (zone_data p) (q_camera item) (map snd (q_tracked_objects item))
       = Inr (camera', current')"
    and f: "set_current_frame cfg camera_cfg (zone_data p) camera' (q_frame_time item)
       (map snd (q_tracked_objects item)) current' (plasma item (camera', q_frame_time item)) cd0
       = Inr (cd1, deleted)"
    and cd2: "cd2 = best_objects_loop (q_camera item) camera' (q_frame_time item) (clock item) 0
             (map snd (q_tracked_objects item)) cd1"
    and r: "report_objects cfg camera' (best_objects (cam_entry cd2 (q_camera item)))
       (map snd (q_tracked_objects item)) (object_status (cam_entry cd2 (q_camera item)))
       = Inr (st1, object_msgs)"
    and p': "p' = \<lparr>camera_data = cd2(q_camera item \<mapsto> (cam_entry cd2 (q_camera item))\<lparr>object_status := st1\<rparr>),
           zone_data = fst (report_zones (topic_prefix cfg) camera' current'
                              (relevant_zones cfg camera') (zone_data p))\<rparr>"
    and e: "effects = deleted @ snd (report_zones (topic_prefix cfg) camera' current'
                                (relevant_zones cfg camera') (zone_data p)) @ object_msgs"
    by (rule process_Inr)
  from z assms(2) have same: "camera' = camera" "current' = current" by simp_all
  have h: "held_handle (camera_data p') c = held_handle cd1 c" for c
    by (simp add: p' cd2 held_handle_def cam_entry_upd
        best_objects_loop_frames [unfolded held_handle_def shown_frame_def])
  have s: "shown_frame (camera_data p') c = shown_frame cd1 c" for c
    by (simp add: p' cd2 shown_frame_def cam_entry_upd
        best_objects_loop_frames [unfolded held_handle_def shown_frame_def])
  have d: "plasma_deletes effects = plasma_deletes deleted"
    using report_objects_deletes [OF r]
    by (simp add: e plasma_deletes_append report_zones_deletes)
  from a f [unfolded same cd0] h s d show ?thesis
    by blast
qed

lemma process_handles:
  assumes "process cfg p item = Inr (p', effects)"
    and "objects_in_zones cfg (zone_data p) (q_camera item) (map snd (q_tracked_objects item))
           = Inr (camera, current)"
  shows "(plasma item (camera, q_frame_time item) = None \<longrightarrow>
            (\<forall>c. held_handle (camera_data p') c = held_handle (camera_data p) c \<and>
                 shown_frame (camera_data p') c = shown_frame (camera_data p) c) \<and>
            plasma_deletes effects = []) \<and>
         (\<forall>raw. plasma item (camera, q_frame_time item) = Some raw \<longrightarrow>
            held_handle (camera_data p') camera = Some (camera, q_frame_time item) \<and>
            (\<exists>camera_cfg. map_of (camera_config cfg) (q_camera item) = Some camera_cfg \<and>
               annotate cfg camera_cfg (zone_data p) camera (q_frame_time item)
                 (map snd (q_tracked_objects item)) current raw
               = Inr (shown_frame (camera_data p') camera)) \<and>
            (\<forall>c. c \<noteq> camera \<longrightarrow>
               held_handle (camera_data p') c = held_handle (camera_data p) c \<and>
               shown_frame (camera_data p') c = shown_frame (camera_data p) c) \<and>
            plasma_deletes effects =
              (case held_handle (camera_data p) camera of None \<Rightarrow> [] | Some previous \<Rightarrow> [previous]))"
proof -
  let ?cd0 = "(camera_data p)(q_camera item \<mapsto> (cam_entry (camera_data p) (q_camera item))
              \<lparr>tracked_objects := q_tracked_objects item, current_frame_time := q_frame_time item\<rparr>)"
  from process_frames [OF assms] obtain camera_cfg cd1 deleted where
    a: "map_of (camera_config cfg) (q_camera item) = Some camera_cfg"
    and f: "set_current_frame cfg camera_cfg (zone_data p) camera (q_frame_time item)
       (map snd (q_tracked_objects item)) current (plasma item (camera, q_frame_time item)) ?cd0
       = Inr (cd1, deleted)"
    and h: "\<And>c. held_handle (camera_data p') c = held_handle cd1 c"
    and s: "\<And>c. shown_frame (camera_data p') c = shown_frame cd1 c"
    and d: "plasma_deletes effects = plasma_deletes deleted"
    by blast
  have h0: "held_handle ?cd0 c = held_handle (camera_data p) c" for c
    by (simp add: held_handle_def cam_entry_upd)
  have s0: "shown_frame ?cd0 c = shown_frame (camera_data p) c" for c
    by (simp add: shown_frame_def cam_entry_upd)
  have none: "(\<forall>c. held_handle (camera_data p') c = held_handle (camera_data p) c \<and>
                 shown_frame (camera_data p') c = shown_frame (camera_data p) c) \<and>
            plasma_deletes effects = []"
    if "plasma item (camera, q_frame_time item) = None"
  proof -
    from f that have "cd1 = ?cd0" and "deleted = []"
      by (auto simp: set_current_frame_None)
    then show ?thesis
      by (simp add: h s d h0 s0)
  qed
  have some: "held_handle (camera_data p') camera = Some (camera, q_frame_time item) \<and>
            (\<exists>camera_cfg. map_of (camera_config cfg) (q_camera item) = Some camera_cfg \<and>
               annotate cfg camera_cfg (zone_data p) camera (q_frame_time item)
                 (map snd (q_tracked_objects item)) current raw
               = Inr (shown_frame (camera_data p') camera)) \<and>
            (\<forall>c. c \<noteq> camera \<longrightarrow>
               held_handle (camera_data p') c = held_handle (camera_data p) c \<and>
               shown_frame (camera_data p') c = shown_frame (camera_data p) c) \<and>
            plasma_deletes effects =
              (case held_handle (camera_data p) camera of None \<Rightarrow> [] | Some previous \<Rightarrow> [previous])"
    if "plasma item (camera, q_frame_time item) = Some raw" for raw
  proof -
    from f that have f': "set_current_frame cfg camera_cfg (zone_data p) camera (q_frame_time item)
       (map snd (q_tracked_objects item)) current (Some raw) ?cd0 = Inr (cd1, deleted)"
      by simp
    note r = set_current_frame_Some [OF f']
    show ?thesis
      using r(1) r(2) r(3) r(4) a
      by (auto simp: h s d h0 s0 split: option.splits)
  qed
  from none some show ?thesis by blast
qed

text \<open>
  Claim C7. The handle of a camera is the one field \<open>object_id\<close> of its entry, so at most
  one is recorded. In a turn of the loop that returns, let \<open>camera\<close> be the value of the
  variable after the zone loops. If the store has no frame for the key of
  \<open>camera\<close> and the frame time, no camera's handle or current frame changes and nothing is
  deleted. If it has one, the handle of \<open>camera\<close> becomes that key, its current frame is
  that frame with the annotations drawn, the handle and current frame of every other
  camera stay, and the store is asked to delete exactly the handle that was held for
  \<open>camera\<close> before, if there was one. So, between turns, the handle of a camera names the
  frame that was last made its current frame.
\<close>

theorem single_frame_handle:
  assumes "process cfg p item = Inr (p', effects)"
    and "objects_in_zones cfg (zone_data p) (q_camera item) (map snd (q_tracked_objects item))
           = Inr (camera, current)"
  shows "(plasma item (camera, q_frame_time item) = None \<longrightarrow>
            (\<forall>c. held_handle (camera_data p') c = held_handle (camera_data p) c \<and>
                 shown_frame (camera_data p') c = shown_frame (camera_data p) c) \<and>
            plasma_deletes effects = []) \<and>
         (\<forall>raw. plasma item (camera, q_frame_time item) = Some raw \<longrightarrow>
            held_handle (camera_data p') camera = Some (camera, q_frame_time item) \<and>
            (\<exists>camera_cfg. map_of (camera_config cfg) (q_camera item) = Some camera_cfg \<and>
               annotate cfg camera_cfg (zone_data p) camera (q_frame_time item)
                 (map snd (q_tracked_objects item)) current raw
               = Inr (shown_frame (camera_data p') camera)) \<and>
            (\<forall>c. c \<noteq> camera \<longrightarrow>
               held_handle (camera_data p') c = held_handle (camera_data p) c \<and>
               shown_frame (camera_data p') c = shown_frame (camera_data p) c) \<and>
            plasma_deletes effects =
              (case held_handle (camera_data p) camera of None \<Rightarrow> [] | Some previous \<Rightarrow> [previous]))"
  using assms by (rule process_handles)


lemma drive_person_in_zone:
  "objects_in_zones drive_config [(''drive'', drive_zone)] ''back'' [person s a t h]
     = Inr (''back'', (\<lambda>name. [])(''drive'' := [''person'']))"
  by (simp add: drive_config_def drive_zone_def zone_filters_def zone_filtered_def py_get_def
      py_in_def person_def objects_in_zones_def bottom_center_def box3_def rectangle_test_def
      ebind_def)

lemma drive_report_zones:
  "report_zones ''frigate'' ''back'' ((\<lambda>name. [])(''drive'' := [''person'']))
     (relevant_zones drive_config ''back'') [(''drive'', drive_zone)]
   = ([(''drive'', drive_zone\<lparr>zone_object_status := [(''back'', [(''person'', ON)])]\<rparr>)],
      [Publish ''frigate/drive/person'' (Text ''ON'') False])"
  by (simp add: relevant_zones_def drive_config_def drive_zone_def report_zone_def zone_entry_def
      status_of_camera_def labels_for_zone_def report_label_def any_on_def read_label_def
      zone_topic_def)


lemma process_framed_item:
  "process drive_config held_processor framed_item =
     Inr (after_framed_item,
          [PlasmaDelete (''back'', 10),
           Publish ''frigate/drive/person'' (Text ''ON'') False])"
  by (simp add: process_def held_processor_def framed_item_def after_framed_item_def)
     (simp add: drive_config_def drive_zone_def zone_filters_def zone_filtered_def py_get_def
      py_in_def person_def objects_in_zones_def bottom_center_def box3_def rectangle_test_def
      ebind_def set_current_frame_def annotate_def draw_def framed_frame_def
      best_object_step_def cam_entry_def cam_touch_def
      default_camera_state_def relevant_zones_def report_zone_def zone_entry_def
      status_of_camera_def labels_for_zone_def report_label_def any_on_def read_label_def
      zone_topic_def report_objects_def publish_snapshot_def expired_objects_def camera_topic_def
      snapshot_topic_def status_text_def frame_with_frame zeros_def Let_def)

theorem single_frame_handle_witness:
  "process drive_config held_processor framed_item
     = Inr (after_framed_item,
            [PlasmaDelete (''back'', 10), Publish ''frigate/drive/person'' (Text ''ON'') False]) \<and>
   plasma framed_item (''back'', q_frame_time framed_item) = Some (Frame 7 []) \<and>
   held_handle (camera_data held_processor) ''back'' = Some (''back'', 10) \<and>
   held_handle (camera_data after_framed_item) ''back'' = Some (''back'', 12) \<and>
   shown_frame (camera_data after_framed_item) ''back'' = framed_frame \<and>
   plasma_deletes [PlasmaDelete (''back'', 10), Publish ''frigate/drive/person'' (Text ''ON'') False]
     = [(''back'', 10)]"
proof -
  have z: "objects_in_zones drive_config (zone_data held_processor) (q_camera framed_item)
             (map snd (q_tracked_objects framed_item))
           = Inr (''back'', (\<lambda>name. [])(''drive'' := [''person'']))"
    by (simp add: held_processor_def framed_item_def drive_person_in_zone)
  from single_frame_handle [OF process_framed_item z] show ?thesis
    by (simp add: process_framed_item)
       (simp add: framed_item_def held_processor_def held_handle_def shown_frame_def
          cam_entry_def after_framed_item_def)
qed

text \<open>
  Claim C6, on \<open>yard_config\<close>: a snapshot of camera \<open>back\<close> at time 12 whose frame the
  store does not have. The zone loop of line 114 leaves \<open>front\<close> in the variable
  \<open>camera\<close>, so line 121 asks the store for the frame of \<open>front\<close> at time 12, which is
  there: the turn draws the person of \<open>back\<close> on it, makes it the current frame of
  \<open>front\<close>, deletes the handle that \<open>front\<close> held and records the new one. The claim has
  these steps skipped for a snapshot whose frame is unavailable.
\<close>

theorem missing_frame_still_annotated:
  "plasma back_item (q_camera back_item, q_frame_time back_item) = None \<and>
   held_handle (camera_data front_held) ''front'' = Some (''front'', 10) \<and>
   shown_frame (camera_data front_held) ''front'' = zeros \<and>
   process yard_config front_held back_item
     = Inr (after_back_item,
            [PlasmaDelete (''front'', 10),
             Publish ''frigate/yard/person'' (Text ''ON'') False,
             Publish ''frigate/drive/person'' (Text ''ON'') False,
             Publish ''frigate/front/person'' (Text ''ON'') False,
             Publish ''frigate/front/person/snapshot'' (Jpeg [7]) True]) \<and>
   held_handle (camera_data after_back_item) ''front'' = Some (''front'', 12) \<and>
   shown_frame (camera_data after_back_item) ''front'' = boxed_frame"
  apply (intro conjI)
       apply (simp add: back_item_def)
      apply (simp add: front_held_def held_handle_def cam_entry_def)
     apply (simp add: front_held_def shown_frame_def cam_entry_def default_camera_state_def)
    apply (simp add: process_def front_held_def back_item_def after_back_item_def)
    apply (simp add: yard_config_def yard_zones_def zone_filters_def zone_filtered_def py_get_def
      py_in_def person_def objects_in_zones_def bottom_center_def box3_def rectangle_test_def
      ebind_def set_current_frame_def annotate_def draw_def boxed_frame_def
      best_object_step_def cam_entry_def cam_touch_def
      default_camera_state_def relevant_zones_def report_zone_def zone_entry_def
      status_of_camera_def labels_for_zone_def report_label_def any_on_def read_label_def
      zone_topic_def report_objects_def publish_snapshot_def expired_objects_def camera_topic_def
      snapshot_topic_def status_text_def frame_with_frame zeros_def Let_def fun_upd_twist)
   apply (simp add: after_back_item_def held_handle_def cam_entry_def)
  apply (simp add: after_back_item_def shown_frame_def cam_entry_def)
  done

subsection \<open>Presence in a turn of the loop\<close>







subsection \<open>Zone occupancy\<close>

lemma read_label_on: "map_of (read_label d l) k = Some ON \<longleftrightarrow> map_of d k = Some ON"
  by (auto simp: read_label_def split: option.splits if_splits)

lemma any_on_fst: "fst (any_on os l) = occupied os l"
  by (simp add: any_on_def occupied_def)

lemma any_on_snd: "occupied (snd (any_on os l)) k = occupied os k"
  by (induction os) (simp_all add: any_on_def occupied_def read_label_on)

lemma list_ex_update:
  assumes "\<And>d. Q (g d) = Q d" and "\<not> Q []"
  shows "list_ex (\<lambda>cd. Q (snd cd)) (AList.update camera (g (status_of_camera os camera)) os)
           = list_ex (\<lambda>cd. Q (snd cd)) os"
  using assms by (induction os) (auto simp: status_of_camera_def)

lemma occupied_update_other:
  "k \<noteq> l \<Longrightarrow>
   occupied (AList.update camera (AList.update l v (status_of_camera os camera)) os) k = occupied os k"
  unfolding occupied_def
  by (rule list_ex_update [where Q = "\<lambda>d. map_of d k = Some ON"])
     (simp_all add: AList.update_conv')

lemma occupied_touch:
  "occupied (AList.update camera (status_of_camera os camera) os) k = occupied os k"
  unfolding occupied_def
  by (rule list_ex_update [where Q = "\<lambda>d. map_of d k = Some ON" and g = "\<lambda>d. d"]) simp_all

lemma status_of_camera_touch:
  "status_of_camera (AList.update camera (status_of_camera os camera) os) camera
     = status_of_camera os camera"
  by (simp add: status_of_camera_def AList.update_conv')

lemma report_label_msgs:
  "snd (report_label prefix z camera current l os)
     = edge_msgs prefix z l (occupied os l) (occupied (fst (report_label prefix z camera current l os)) l)"
  by (simp add: report_label_def Let_def case_prod_beta edge_msgs_def any_on_fst any_on_snd)

lemma report_label_other:
  "k \<noteq> l \<Longrightarrow> occupied (fst (report_label prefix z camera current l os)) k = occupied os k"
  by (simp add: report_label_def Let_def case_prod_beta any_on_snd occupied_update_other)

lemma labels_loop_edges:
  "distinct ls \<Longrightarrow>
   snd (labels_loop prefix z camera current ls os)
     = concat (map (\<lambda>l. edge_msgs prefix z l (occupied os l)
                           (occupied (fst (labels_loop prefix z camera current ls os)) l)) ls) \<and>
   (\<forall>k. k \<notin> set ls \<longrightarrow>
      occupied (fst (labels_loop prefix z camera current ls os)) k = occupied os k)"
proof (induction ls arbitrary: os)
  case Nil
  then show ?case by simp
next
  case (Cons l ls)
  let ?os1 = "fst (report_label prefix z camera current l os)"
  let ?os2 = "fst (labels_loop prefix z camera current ls ?os1)"
  from Cons.prems have l: "l \<notin> set ls" and d: "distinct ls" by simp_all
  from Cons.IH [OF d, of ?os1]
  have ih1: "snd (labels_loop prefix z camera current ls ?os1)
               = concat (map (\<lambda>k. edge_msgs prefix z k (occupied ?os1 k) (occupied ?os2 k)) ls)"
    and ih2: "\<And>k. k \<notin> set ls \<Longrightarrow> occupied ?os2 k = occupied ?os1 k"
    by simp_all
  have tail: "map (\<lambda>k. edge_msgs prefix z k (occupied ?os1 k) (occupied ?os2 k)) ls
            = map (\<lambda>k. edge_msgs prefix z k (occupied os k) (occupied ?os2 k)) ls"
  proof (rule map_cong [OF refl])
    fix k assume "k \<in> set ls"
    with l have "k \<noteq> l" by auto
    then show "edge_msgs prefix z k (occupied ?os1 k) (occupied ?os2 k)
             = edge_msgs prefix z k (occupied os k) (occupied ?os2 k)"
      by (simp add: report_label_other)
  qed
  have head: "snd (report_label prefix z camera current l os)
            = edge_msgs prefix z l (occupied os l) (occupied ?os2 l)"
    by (simp add: report_label_msgs ih2 [OF l])
  have rest: "occupied ?os2 k = occupied os k" if "k \<notin> set (l # ls)" for k
    using that by (simp add: ih2 report_label_other)
  show ?case
    unfolding labels_loop_Cons fst_conv snd_conv head ih1 tail
    using rest by simp
qed

lemma zone_entry_update: "zone_entry (AList.update z v zd) z' = (if z' = z then v else zone_entry zd z')"
  by (simp add: zone_entry_def AList.update_conv')

lemma report_zone_fst:
  "fst (report_zone prefix camera current z zd) =
     AList.update z ((zone_entry zd z)\<lparr>zone_object_status :=
        fst (labels_loop prefix z camera (current z) (visited_labels camera current zd z)
               (AList.update camera (status_of_camera (zone_object_status (zone_entry zd z)) camera)
                  (zone_object_status (zone_entry zd z))))\<rparr>) zd"
  and report_zone_snd:
  "snd (report_zone prefix camera current z zd) =
     snd (labels_loop prefix z camera (current z) (visited_labels camera current zd z)
               (AList.update camera (status_of_camera (zone_object_status (zone_entry zd z)) camera)
                  (zone_object_status (zone_entry zd z))))"
  by (simp_all add: report_zone_def Let_def case_prod_beta visited_labels_def status_of_camera_touch)

lemma report_zone_edges:
  "snd (report_zone prefix camera current z zd)
     = concat (map (\<lambda>l. edge_msgs prefix z l (zone_occupied zd z l)
                           (zone_occupied (fst (report_zone prefix camera current z zd)) z l))
                  (visited_labels camera current zd z))"
  and report_zone_unvisited:
  "k \<notin> set (visited_labels camera current zd z) \<Longrightarrow>
     zone_occupied (fst (report_zone prefix camera current z zd)) z k = zone_occupied zd z k"
  and report_zone_other:
  "z' \<noteq> z \<Longrightarrow> zone_entry (fst (report_zone prefix camera current z zd)) z' = zone_entry zd z'"
proof -
  let ?os0 = "AList.update camera (status_of_camera (zone_object_status (zone_entry zd z)) camera)
                  (zone_object_status (zone_entry zd z))"
  let ?ls = "visited_labels camera current zd z"
  have d: "distinct ?ls"
    by (simp add: visited_labels_def labels_for_zone_def)
  note loop = labels_loop_edges [OF d, of prefix z camera "current z" ?os0]
  have after: "zone_occupied (fst (report_zone prefix camera current z zd)) z k
             = occupied (fst (labels_loop prefix z camera (current z) ?ls ?os0)) k" for k
    by (simp add: zone_occupied_def report_zone_fst zone_entry_update)
  have before: "occupied ?os0 k = zone_occupied zd z k" for k
    by (simp add: zone_occupied_def occupied_touch)
  show "snd (report_zone prefix camera current z zd)
     = concat (map (\<lambda>l. edge_msgs prefix z l (zone_occupied zd z l)
                           (zone_occupied (fst (report_zone prefix camera current z zd)) z l)) ?ls)"
    using loop by (simp add: report_zone_snd after before)
  show "k \<notin> set ?ls \<Longrightarrow>
     zone_occupied (fst (report_zone prefix camera current z zd)) z k = zone_occupied zd z k"
    using loop by (simp add: after before)
  show "z' \<noteq> z \<Longrightarrow> zone_entry (fst (report_zone prefix camera current z zd)) z' = zone_entry zd z'"
    by (simp add: report_zone_fst zone_entry_update)
qed

lemma report_zones_edges:
  "distinct zs \<Longrightarrow>
   snd (report_zones prefix camera current zs zd)
     = concat (map (zone_edges prefix camera current zd
                      (fst (report_zones prefix camera current zs zd))) zs) \<and>
   (\<forall>z k. \<not> (z \<in> set zs \<and> k \<in> set (visited_labels camera current zd z)) \<longrightarrow>
      zone_occupied (fst (report_zones prefix camera current zs zd)) z k = zone_occupied zd z k) \<and>
   (\<forall>z. z \<notin> set zs \<longrightarrow>
      zone_entry (fst (report_zones prefix camera current zs zd)) z = zone_entry zd z)"
proof (induction zs arbitrary: zd)
  case Nil
  then show ?case by simp
next
  case (Cons z zs)
  let ?zd1 = "fst (report_zone prefix camera current z zd)"
  let ?zd2 = "fst (report_zones prefix camera current zs ?zd1)"
  from Cons.prems have z: "z \<notin> set zs" and d: "distinct zs" by simp_all
  from Cons.IH [OF d, of ?zd1]
  have ih1: "snd (report_zones prefix camera current zs ?zd1)
               = concat (map (zone_edges prefix camera current ?zd1 ?zd2) zs)"
    and ih2: "\<And>y k. \<not> (y \<in> set zs \<and> k \<in> set (visited_labels camera current ?zd1 y)) \<Longrightarrow>
                 zone_occupied ?zd2 y k = zone_occupied ?zd1 y k"
    and ih3: "\<And>y. y \<notin> set zs \<Longrightarrow> zone_entry ?zd2 y = zone_entry ?zd1 y"
    by blast+
  have entry1: "zone_entry ?zd1 y = zone_entry zd y" if "y \<noteq> z" for y
    using that by (rule report_zone_other)
  have vis1: "visited_labels camera current ?zd1 y = visited_labels camera current zd y"
    if "y \<noteq> z" for y
    using that by (simp add: visited_labels_def entry1)
  have occ1: "zone_occupied ?zd1 y k = zone_occupied zd y k" if "y \<noteq> z" for y k
    using that by (simp add: zone_occupied_def entry1)
  have occ2: "zone_occupied ?zd2 z k = zone_occupied ?zd1 z k" for k
    by (simp add: zone_occupied_def ih3 [OF z])
  have tail: "map (zone_edges prefix camera current ?zd1 ?zd2) zs
            = map (zone_edges prefix camera current zd ?zd2) zs"
  proof (rule map_cong [OF refl])
    fix y assume "y \<in> set zs"
    with z have "y \<noteq> z" by auto
    then show "zone_edges prefix camera current ?zd1 ?zd2 y
             = zone_edges prefix camera current zd ?zd2 y"
      by (simp add: zone_edges_def vis1 occ1)
  qed
  have head: "snd (report_zone prefix camera current z zd)
            = zone_edges prefix camera current zd ?zd2 z"
    by (simp add: report_zone_edges zone_edges_def occ2)
  have 1: "snd (report_zones prefix camera current (z # zs) zd)
     = concat (map (zone_edges prefix camera current zd
                      (fst (report_zones prefix camera current (z # zs) zd))) (z # zs))"
    unfolding report_zones_Cons fst_conv snd_conv head ih1 tail by simp
  have 2: "zone_occupied (fst (report_zones prefix camera current (z # zs) zd)) y k
             = zone_occupied zd y k"
    if "\<not> (y \<in> set (z # zs) \<and> k \<in> set (visited_labels camera current zd y))" for y k
  proof (cases "y = z")
    case True
    with that have "k \<notin> set (visited_labels camera current zd z)" by simp
    then show ?thesis
      unfolding report_zones_Cons fst_conv True occ2 by (rule report_zone_unvisited)
  next
    case False
    with that have "\<not> (y \<in> set zs \<and> k \<in> set (visited_labels camera current ?zd1 y))"
      by (simp add: vis1)
    from ih2 [OF this] False show ?thesis
      unfolding report_zones_Cons fst_conv by (simp add: occ1)
  qed
  have 3: "zone_entry (fst (report_zones prefix camera current (z # zs) zd)) y = zone_entry zd y"
    if "y \<notin> set (z # zs)" for y
    using that unfolding report_zones_Cons fst_conv by (simp add: ih3 entry1)
  from 1 2 3 show ?case by blast
qed

lemma distinct_relevant_zones:
  "distinct (map fst (zone_config cfg)) \<Longrightarrow> distinct (relevant_zones cfg camera)"
  by (simp add: relevant_zones_def distinct_map_filter)

lemma in_edge_msgs:
  "m \<in> set (edge_msgs prefix z l before after) \<longleftrightarrow>
     (m = Publish (zone_topic prefix z l) (Text ''ON'') False \<and> \<not> before \<and> after) \<or>
     (m = Publish (zone_topic prefix z l) (Text ''OFF'') False \<and> before \<and> \<not> after)"
  by (auto simp: edge_msgs_def)

text \<open>
  Claim C1. The occupancy of a zone and a label is the logical OR, over the cameras of the
  zone's status dictionary, of "the entry of the label is \<open>ON\<close>". Let the zone block
  (lines 182 to 197) take the zone data \<open>zd\<close> to \<open>zd'\<close> and publish \<open>msgs\<close>. The
  block visits each pair of a relevant zone and a label of \<open>labels_for_zone\<close> once;
  \<open>msgs\<close> has, for each visited pair in turn, \<open>ON\<close> on \<open>{prefix}/{zone}/{label}\<close> if
  the occupancy of the pair went from false to true, \<open>OFF\<close> if it went from true to false
  and nothing if it is unchanged (whatever happened to the entries of the cameras), all not
  retained; the occupancy of a pair that is not visited is unchanged. So a rise of the
  occupancy of any pair has its \<open>ON\<close> in \<open>msgs\<close>, a fall its \<open>OFF\<close>, and every message of
  \<open>msgs\<close> is the \<open>ON\<close> of a rise or the \<open>OFF\<close> of a fall. This holds from every state,
  hence along every sequence of snapshots.
\<close>

theorem zone_edge_publish:
  assumes "distinct (map fst (zone_config cfg))"
    and "report_zones (topic_prefix cfg) camera current (relevant_zones cfg camera) zd = (zd', msgs)"
  shows "msgs = concat (map (\<lambda>z. concat (map (\<lambda>l. edge_msgs (topic_prefix cfg) z l
                                                  (zone_occupied zd z l) (zone_occupied zd' z l))
                                         (visited_labels camera current zd z)))
                         (relevant_zones cfg camera)) \<and>
         distinct (relevant_zones cfg camera) \<and>
         (\<forall>z. distinct (visited_labels camera current zd z)) \<and>
         (\<forall>z l. \<not> (z \<in> set (relevant_zones cfg camera) \<and> l \<in> set (visited_labels camera current zd z))
            \<longrightarrow> zone_occupied zd' z l = zone_occupied zd z l) \<and>
         (\<forall>z l. \<not> zone_occupied zd z l \<and> zone_occupied zd' z l \<longrightarrow>
            Publish (zone_topic (topic_prefix cfg) z l) (Text ''ON'') False \<in> set msgs) \<and>
         (\<forall>z l. zone_occupied zd z l \<and> \<not> zone_occupied zd' z l \<longrightarrow>
            Publish (zone_topic (topic_prefix cfg) z l) (Text ''OFF'') False \<in> set msgs) \<and>
         (\<forall>m \<in> set msgs. \<exists>z l.
            (m = Publish (zone_topic (topic_prefix cfg) z l) (Text ''ON'') False \<and>
               \<not> zone_occupied zd z l \<and> zone_occupied zd' z l) \<or>
            (m = Publish (zone_topic (topic_prefix cfg) z l) (Text ''OFF'') False \<and>
               zone_occupied zd z l \<and> \<not> zone_occupied zd' z l))"
proof -
  let ?zs = "relevant_zones cfg camera"
  let ?p = "topic_prefix cfg"
  have d: "distinct ?zs"
    using assms(1) by (rule distinct_relevant_zones)
  from assms(2) have zd': "zd' = fst (report_zones ?p camera current ?zs zd)"
    and msgs: "msgs = snd (report_zones ?p camera current ?zs zd)"
    by simp_all
  from report_zones_edges [OF d, of ?p camera current zd]
  have eq: "msgs = concat (map (zone_edges ?p camera current zd zd') ?zs)"
    and unvisited: "\<And>z l. \<not> (z \<in> set ?zs \<and> l \<in> set (visited_labels camera current zd z)) \<Longrightarrow>
                     zone_occupied zd' z l = zone_occupied zd z l"
    unfolding zd' msgs by blast+
  have mem: "m \<in> set msgs \<longleftrightarrow>
      (\<exists>z \<in> set ?zs. \<exists>l \<in> set (visited_labels camera current zd z).
          m \<in> set (edge_msgs ?p z l (zone_occupied zd z l) (zone_occupied zd' z l)))" for m
    unfolding eq by (auto simp: zone_edges_def)
  have 1: "msgs = concat (map (\<lambda>z. concat (map (\<lambda>l. edge_msgs ?p z l
                                                  (zone_occupied zd z l) (zone_occupied zd' z l))
                                         (visited_labels camera current zd z))) ?zs)"
    using eq by (simp add: zone_edges_def [abs_def])
  have 3: "distinct (visited_labels camera current zd z)" for z
    by (simp add: visited_labels_def labels_for_zone_def)
  have changed: "z \<in> set ?zs \<and> l \<in> set (visited_labels camera current zd z)"
    if "zone_occupied zd' z l \<noteq> zone_occupied zd z l" for z l
    using that unvisited [of z l] by blast
  have 5: "Publish (zone_topic ?p z l) (Text ''ON'') False \<in> set msgs"
    if "\<not> zone_occupied zd z l \<and> zone_occupied zd' z l" for z l
    using that changed [of z l] unfolding mem in_edge_msgs by blast
  have 6: "Publish (zone_topic ?p z l) (Text ''OFF'') False \<in> set msgs"
    if "zone_occupied zd z l \<and> \<not> zone_occupied zd' z l" for z l
    using that changed [of z l] unfolding mem in_edge_msgs by blast
  have 7: "\<exists>z l.
            (m = Publish (zone_topic ?p z l) (Text ''ON'') False \<and>
               \<not> zone_occupied zd z l \<and> zone_occupied zd' z l) \<or>
            (m = Publish (zone_topic ?p z l) (Text ''OFF'') False \<and>
               zone_occupied zd z l \<and> \<not> zone_occupied zd' z l)"
    if "m \<in> set msgs" for m
    using that unfolding mem in_edge_msgs by blast
  from 1 d 3 unvisited 5 6 7 show ?thesis
    by blast
qed

lemma report_handoff:
  "report_zones (topic_prefix yard_config) ''front'' (\<lambda>name. [])
     (relevant_zones yard_config ''front'') handoff_zones
   = (after_handoff, [Publish ''frigate/drive/person'' (Text ''OFF'') False])"
  by (simp add: relevant_zones_def yard_config_def handoff_zones_def after_handoff_def
      report_zone_def zone_entry_def status_of_camera_def labels_for_zone_def report_label_def
      any_on_def read_label_def zone_topic_def)

theorem zone_edge_publish_witness:
  "distinct (map fst (zone_config yard_config)) \<and>
   report_zones (topic_prefix yard_config) ''front'' (\<lambda>name. [])
     (relevant_zones yard_config ''front'') handoff_zones
   = (after_handoff, [Publish ''frigate/drive/person'' (Text ''OFF'') False]) \<and>
   zone_occupied handoff_zones ''yard'' ''person'' \<and>
   zone_occupied after_handoff ''yard'' ''person'' \<and>
   zone_occupied handoff_zones ''drive'' ''person'' \<and>
   \<not> zone_occupied after_handoff ''drive'' ''person'' \<and>
   zone_topic (topic_prefix yard_config) ''drive'' ''person'' = ''frigate/drive/person''"
proof -
  have d: "distinct (map fst (zone_config yard_config))"
    by (simp add: yard_config_def)
  from zone_edge_publish [OF d report_handoff] d show ?thesis
    by (simp add: report_handoff)
       (simp add: zone_occupied_def occupied_def zone_entry_def handoff_zones_def
          after_handoff_def zone_topic_def yard_config_def)
qed

end
